theory Spec2Isabelle
  imports Complex_Main
begin

section \<open>The extended XYZ reader of \<open>xyz_tools/extended_reader.py\<close>\<close>

text \<open>
  The development embeds \<open>ExtXYZReader\<close>: the comment-line parser
  \<open>__parse_extended_comment\<close>, the per-atom row decoder inside \<open>__read_frame\<close> and
  \<open>__next__\<close>. The module \<open>xyz_tools/reader.py\<close> repeats the same code with the enum
  called \<open>DataType\<close>, so one embedding serves both.

  Python exceptions are values of the type \<open>error\<close>; a function that may raise returns
  \<open>error + 'a\<close> with \<open>Inl\<close> for the exception. The file object is the list of the lines
  it has not yet handed out, and a function that reads lines returns the remaining list.

  The builtin \<open>float\<close> is not part of the repository and its values are binary floating
  point numbers, so it is a parameter \<open>pyfloat :: string \<Rightarrow> 'r option\<close> of every function
  that calls it: \<open>None\<close> stands for \<open>ValueError\<close>, and \<open>'r\<close> is the type of float values.
\<close>

subsection \<open>Exceptions\<close>

text \<open>
  \<open>AssertionError expected got line\<close> carries the three numbers that the assertion message
  of \<open>__read_frame\<close> formats; \<open>KeyError\<close> carries the missing key.
\<close>

datatype error =
    StopIteration
  | ValueError
  | KeyError string
  | IndexError
  | AssertionError int nat nat

subsection \<open>Characters and the string methods of Python\<close>

abbreviation dquote :: char where
  "dquote \<equiv> CHR 0x22"

abbreviation newline :: char where
  "newline \<equiv> CHR 0x0A"

text \<open>
  The file is opened with \<open>encoding="ascii"\<close>, so every character is below 128. On those,
  \<open>str.split()\<close> and the pattern \<open>\s\<close> agree on what whitespace is: tab, line feed,
  vertical tab, form feed, carriage return, the four separators 0x1C to 0x1F and the space;
  and \<open>\w\<close> is a letter, a digit or the underscore. The builtin \<open>int\<close> skips less: on a
  string of ASCII characters only the six characters of C's \<open>isspace\<close>, which leaves the
  four separators out.
\<close>

definition is_space :: "char \<Rightarrow> bool" where
  "is_space c \<longleftrightarrow>
     c \<in> set [CHR 0x09, CHR 0x0A, CHR 0x0B, CHR 0x0C, CHR 0x0D,
              CHR 0x1C, CHR 0x1D, CHR 0x1E, CHR 0x1F, CHR 0x20]"

definition is_int_space :: "char \<Rightarrow> bool" where
  "is_int_space c \<longleftrightarrow>
     c \<in> set [CHR 0x09, CHR 0x0A, CHR 0x0B, CHR 0x0C, CHR 0x0D, CHR 0x20]"

definition is_digit :: "char \<Rightarrow> bool" where
  "is_digit c \<longleftrightarrow> (48::nat) \<le> of_char c \<and> (of_char c :: nat) \<le> 57"

definition is_word :: "char \<Rightarrow> bool" where
  "is_word c \<longleftrightarrow>
     is_digit c
     \<or> ((65::nat) \<le> of_char c \<and> (of_char c :: nat) \<le> 90)
     \<or> ((97::nat) \<le> of_char c \<and> (of_char c :: nat) \<le> 122)
     \<or> c = CHR ''_''"

definition digit_value :: "char \<Rightarrow> nat" where
  "digit_value c = of_char c - 48"

text \<open>\<open>s.split()\<close>: the maximal runs of non-whitespace, in order; \<open>cur\<close> is the run being read.\<close>

fun split_run :: "string \<Rightarrow> string \<Rightarrow> string list" where
  "split_run cur [] = (if cur = [] then [] else [cur])"
| "split_run cur (c # cs) =
     (if is_space c then (if cur = [] then split_run [] cs else cur # split_run [] cs)
      else split_run (cur @ [c]) cs)"

definition split_ws :: "string \<Rightarrow> string list" where
  "split_ws s = split_run [] s"

text \<open>
  \<open>s.split(sep)\<close> for a separator of one character: empty fields are kept, and the empty
  string gives one empty field.
\<close>

fun split_field :: "char \<Rightarrow> string \<Rightarrow> string \<Rightarrow> string list" where
  "split_field sep cur [] = [cur]"
| "split_field sep cur (c # cs) =
     (if c = sep then cur # split_field sep [] cs else split_field sep (cur @ [c]) cs)"

definition split_on :: "char \<Rightarrow> string \<Rightarrow> string list" where
  "split_on sep s = split_field sep [] s"

text \<open>\<open>s.strip(chars)\<close> for the characters that satisfy \<open>P\<close>.\<close>

definition strip_chars :: "(char \<Rightarrow> bool) \<Rightarrow> string \<Rightarrow> string" where
  "strip_chars P s = rev (dropWhile P (rev (dropWhile P s)))"

text \<open>
  \<open>xs[a:b]\<close> with Python's rules: a negative bound counts from the end, and both bounds are
  clamped to the list.
\<close>

definition slice_bound :: "nat \<Rightarrow> int \<Rightarrow> nat" where
  "slice_bound n i = (if i < 0 then nat (max 0 (i + int n)) else min n (nat i))"

definition py_slice :: "'a list \<Rightarrow> int \<Rightarrow> int \<Rightarrow> 'a list" where
  "py_slice xs a b =
     (let lo = slice_bound (length xs) a; hi = slice_bound (length xs) b
      in take (hi - lo) (drop lo xs))"

subsection \<open>The builtin \<open>int\<close> on strings\<close>

text \<open>
  \<open>int(s)\<close> in base ten: the whitespace of \<open>is_int_space\<close> is skipped at both ends, one
  sign is allowed, and the rest is a non-empty run of digits in which single underscores
  may stand between two digits. Anything else raises \<open>ValueError\<close> (\<open>None\<close> here), and so
  does a literal of more than \<open>max_str_digits\<close> digits, underscores not counted: the
  interpreter's limit on the conversion, at its default of 4300.
\<close>

definition max_str_digits :: int where
  "max_str_digits = 4300"

fun int_digits :: "nat \<Rightarrow> string \<Rightarrow> nat option" where
  "int_digits acc [] = Some acc"
| "int_digits acc [c] = (if is_digit c then Some (acc * 10 + digit_value c) else None)"
| "int_digits acc (c # d # cs) =
     (if is_digit c then int_digits (acc * 10 + digit_value c) (d # cs)
      else if c = CHR ''_'' \<and> is_digit d then int_digits acc (d # cs)
      else None)"

definition nat_literal :: "string \<Rightarrow> nat option" where
  "nat_literal s =
     (case s of
        [] \<Rightarrow> None
      | c # cs \<Rightarrow>
          if max_str_digits < int (length (filter is_digit s)) then None
          else if is_digit c then int_digits (digit_value c) cs
          else None)"

definition py_int :: "string \<Rightarrow> int option" where
  "py_int s =
     (case strip_chars is_int_space s of
        [] \<Rightarrow> None
      | c # cs \<Rightarrow>
          if c = CHR ''-'' then map_option (\<lambda>n. - int n) (nat_literal cs)
          else if c = CHR ''+'' then map_option int (nat_literal cs)
          else map_option int (nat_literal (c # cs)))"

text \<open>The two builtins as functions that raise.\<close>

definition int_of_str :: "string \<Rightarrow> error + int" where
  "int_of_str s = (case py_int s of None \<Rightarrow> Inl ValueError | Some n \<Rightarrow> Inr n)"

definition float_of_str :: "(string \<Rightarrow> 'r option) \<Rightarrow> string \<Rightarrow> error + 'r" where
  "float_of_str pyfloat s = (case pyfloat s of None \<Rightarrow> Inl ValueError | Some r \<Rightarrow> Inr r)"

text \<open>A comprehension \<open>[f(x) for x in xs]\<close> whose body may raise: the first exception wins.\<close>

fun map_raise :: "('a \<Rightarrow> error + 'b) \<Rightarrow> 'a list \<Rightarrow> error + 'b list" where
  "map_raise f [] = Inr []"
| "map_raise f (x # xs) =
     (case f x of
        Inl e \<Rightarrow> Inl e
      | Inr y \<Rightarrow> (case map_raise f xs of Inl e \<Rightarrow> Inl e | Inr ys \<Rightarrow> Inr (y # ys)))"

subsection \<open>Dictionaries\<close>

text \<open>
  A \<open>dict\<close> is an association list with distinct keys in insertion order. \<open>d[k] = v\<close>
  overwrites in place when the key is present and appends otherwise.
\<close>

fun dict_set :: "'k \<Rightarrow> 'v \<Rightarrow> ('k \<times> 'v) list \<Rightarrow> ('k \<times> 'v) list" where
  "dict_set k v [] = [(k, v)]"
| "dict_set k v (p # d) = (if fst p = k then (k, v) # d else p # dict_set k v d)"

definition dict_keys :: "('k \<times> 'v) list \<Rightarrow> 'k list" where
  "dict_keys d = map fst d"

definition dict_get :: "(string \<times> 'v) list \<Rightarrow> string \<Rightarrow> error + 'v" where
  "dict_get d k = (case map_of d k of None \<Rightarrow> Inl (KeyError k) | Some v \<Rightarrow> Inr v)"

text \<open>\<open>d[k].append(x)\<close> for a key that is present.\<close>

fun dict_append :: "'k \<Rightarrow> 'v \<Rightarrow> ('k \<times> 'v list) list \<Rightarrow> ('k \<times> 'v list) list" where
  "dict_append k x [] = []"
| "dict_append k x (p # d) =
     (if fst p = k then (k, snd p @ [x]) # d else p # dict_append k x d)"

subsection \<open>\<open>ColumnDataType\<close>\<close>

text \<open>The member \<open>INT\<close> is \<open>INT'\<close> here: \<open>INT\<close> is notation of the logic.\<close>

datatype ColumnDataType = STRING | REAL | INT' | BOOL

text \<open>A parsed scalar: what \<open>str\<close>, \<open>int\<close>, \<open>float\<close> and \<open>bool\<close> return.\<close>

datatype 'r scalar = PyStr string | PyInt int | PyFloat 'r | PyBool bool

text \<open>
  \<open>get_parser\<close> returns one of the builtins \<open>str\<close>, \<open>float\<close>, \<open>int\<close>, \<open>bool\<close>; the model
  applies it at once. \<open>bool(s)\<close> of a string is its non-emptiness. The final \<open>else\<close> of
  the source cannot be reached, the enum having four members.
\<close>

fun get_parser :: "(string \<Rightarrow> 'r option) \<Rightarrow> ColumnDataType \<Rightarrow> string \<Rightarrow> error + 'r scalar" where
  "get_parser pyfloat STRING s = Inr (PyStr s)"
| "get_parser pyfloat REAL s = map_sum id PyFloat (float_of_str pyfloat s)"
| "get_parser pyfloat INT' s = map_sum id PyInt (int_of_str s)"
| "get_parser pyfloat BOOL s = Inr (PyBool (s \<noteq> []))"

definition from_string :: "string \<Rightarrow> error + ColumnDataType" where
  "from_string data_type =
     (if data_type = ''S'' then Inr STRING
      else if data_type = ''R'' then Inr REAL
      else if data_type = ''I'' then Inr INT'
      else if data_type = ''B'' then Inr BOOL
      else Inl ValueError)"

subsection \<open>\<open>FrameProperties\<close> and \<open>ExtXYZFrame\<close>\<close>

text \<open>The field \<open>datatype\<close> of the source is \<open>datatype_of\<close> here, the word being reserved.\<close>

record FrameProperties =
  label :: string
  datatype_of :: ColumnDataType
  column_count :: int

text \<open>
  One entry of a column of \<open>data\<close>: a scalar when the property has one column, otherwise
  the list of the parsed tokens of its slice.
\<close>

datatype 'r entry = Single "'r scalar" | Multi "'r scalar list"

record 'r ExtXYZFrame =
  num_atoms :: int
  LatticeVectors :: "('r \<times> 'r \<times> 'r) list"
  FrameProps :: "FrameProperties list"
  ExtraKV :: "(string \<times> 'r scalar) list"
  data :: "(string \<times> 'r entry list) list"

text \<open>
  What \<open>__parse_extended_comment\<close> returns. The source returns the dictionary \<open>kv_dict\<close>, in
  which the key \<open>Lattice\<close> is bound to a list of triples, the key \<open>Properties\<close> to a list of
  \<open>FrameProperties\<close> and every other key to a scalar; the record keeps the three kinds
  apart, \<open>others\<close> holding the remaining keys in insertion order.
\<close>

record 'r structured_comment =
  Lattice :: "('r \<times> 'r \<times> 'r) list"
  Properties :: "FrameProperties list"
  others :: "(string \<times> 'r scalar) list"

subsection \<open>The pattern \<open>KV_REGEX\<close> and \<open>re.findall\<close>\<close>

text \<open>
  \<open>KV_REGEX = (\w+)=(".*?"|\S+)\<close>. A match that starts at the head of \<open>s\<close> takes the
  maximal run of word characters as the key (a shorter run is followed by a word
  character, never by \<open>=\<close>), then \<open>=\<close>, then the value. The first alternative of the value
  is a double quote, the shortest run of characters other than the line feed, and a double
  quote: it matches when the next double quote comes before any line feed. The second
  alternative is the maximal run of non-whitespace. Each function returns what it matched
  and the rest of the string.
\<close>

definition match_quoted :: "string \<Rightarrow> (string \<times> string) option" where
  "match_quoted s =
     (case s of
        [] \<Rightarrow> None
      | c # t \<Rightarrow>
          if c = dquote then
            (case dropWhile (\<lambda>x. x \<noteq> dquote \<and> x \<noteq> newline) t of
               [] \<Rightarrow> None
             | q # rest \<Rightarrow>
                 if q = dquote
                 then Some (c # takeWhile (\<lambda>x. x \<noteq> dquote \<and> x \<noteq> newline) t @ [q], rest)
                 else None)
          else None)"

definition match_nonspace :: "string \<Rightarrow> (string \<times> string) option" where
  "match_nonspace s =
     (if takeWhile (\<lambda>x. \<not> is_space x) s = [] then None
      else Some (takeWhile (\<lambda>x. \<not> is_space x) s, dropWhile (\<lambda>x. \<not> is_space x) s))"

definition match_value :: "string \<Rightarrow> (string \<times> string) option" where
  "match_value s = (case match_quoted s of Some m \<Rightarrow> Some m | None \<Rightarrow> match_nonspace s)"

definition match_kv :: "string \<Rightarrow> ((string \<times> string) \<times> string) option" where
  "match_kv s =
     (if takeWhile is_word s = [] then None
      else (case dropWhile is_word s of
              [] \<Rightarrow> None
            | e # t \<Rightarrow>
                if e = CHR ''='' then
                  (case match_value t of
                     None \<Rightarrow> None
                   | Some (v, rest) \<Rightarrow> Some ((takeWhile is_word s, v), rest))
                else None))"

text \<open>
  \<open>re.findall\<close>: the matches from left to right, each as the pair of its two groups; the
  search resumes where a match ends, and one character further where none starts.
\<close>

function findall :: "string \<Rightarrow> (string \<times> string) list" where
  "findall [] = []"
| "findall (c # cs) =
     (case match_kv (c # cs) of
        None \<Rightarrow> findall cs
      | Some (kv, rest) \<Rightarrow> kv # findall rest)"
  by pat_completeness auto
termination
proof (relation "measure length")
  show "wf (measure (length :: string \<Rightarrow> nat))"
    by simp
next
  fix c :: char and cs :: string
  show "(cs, c # cs) \<in> measure length"
    by simp
next
  fix c :: char and cs rest :: string and kv x2
  assume m: "match_kv (c # cs) = Some x2" and x2: "(kv, rest) = x2"
  have le: "length (dropWhile P xs) \<le> length xs" for P and xs :: string
    by (rule length_dropWhile_le)
  have val: "length r \<le> length t" if "match_value t = Some (v, r)" for t v r
  proof (cases "match_quoted t")
    case None
    with that have "r = dropWhile (\<lambda>x. \<not> is_space x) t"
      by (auto simp: match_value_def match_nonspace_def split: if_splits)
    then show ?thesis
      by (simp add: le)
  next
    case (Some m)
    with that have q: "match_quoted t = Some (v, r)"
      by (simp add: match_value_def)
    then obtain c' t' q' where t: "t = c' # t'"
      and d: "dropWhile (\<lambda>x. x \<noteq> dquote \<and> x \<noteq> newline) t' = q' # r"
      by (auto simp: match_quoted_def split: list.splits if_splits)
    have "length (q' # r) \<le> length t'"
      using le [of "\<lambda>x. x \<noteq> dquote \<and> x \<noteq> newline" t'] d by simp
    with t show ?thesis
      by simp
  qed
  from m x2 obtain e t v where d: "dropWhile is_word (c # cs) = e # t"
    and v: "match_value t = Some (v, rest)"
    by (auto simp: match_kv_def split: if_splits list.splits option.splits)
  have "length (e # t) \<le> length (c # cs)"
    using le [of is_word "c # cs"] d by simp
  with val [OF v] show "(rest, c # cs) \<in> measure length"
    by simp
qed

subsection \<open>\<open>__parse_extended_comment\<close>\<close>

text \<open>Line 82: \<open>kv_dict = {k: v.strip('"') for k, v in kv_pairs}\<close>.\<close>

definition build_kv_dict :: "(string \<times> string) list \<Rightarrow> (string \<times> string) list" where
  "build_kv_dict kv_pairs =
     fold (\<lambda>(k, v) d. dict_set k (strip_chars (\<lambda>c. c = dquote) v) d) kv_pairs []"

text \<open>
  Line 85: \<open>zip(*[iter(it)] * 3)\<close> takes three elements of the one iterator at a time and
  stops when the iterator runs out, dropping an incomplete last group.
\<close>

fun zip3 :: "'a list \<Rightarrow> ('a \<times> 'a \<times> 'a) list" where
  "zip3 (a # b # c # xs) = (a, b, c) # zip3 xs"
| "zip3 xs = []"

text \<open>
  Lines 84 to 86, on the string bound to \<open>Lattice\<close>. \<open>map\<close> is lazy, but \<open>list(zip(...))\<close>
  draws every token through \<open>float\<close> before the iterator runs out, so a token that
  \<open>float\<close> rejects raises \<open>ValueError\<close> wherever it stands.
\<close>

definition parse_lattice :: "(string \<Rightarrow> 'r option) \<Rightarrow> string \<Rightarrow> error + ('r \<times> 'r \<times> 'r) list" where
  "parse_lattice pyfloat s =
     (case map_raise (float_of_str pyfloat) (split_ws s) of
        Inl e \<Rightarrow> Inl e
      | Inr lattice_vec_data \<Rightarrow> Inr (zip3 lattice_vec_data))"

text \<open>
  Lines 89 to 94: the loop \<open>for i in range(0, len(properties), 3)\<close> over the rest of the
  list from index \<open>i\<close> on. \<open>properties[i + 1]\<close> and \<open>properties[i + 2]\<close> raise \<open>IndexError\<close>
  when the list ends before them.
\<close>

fun properties_loop :: "string list \<Rightarrow> error + FrameProperties list" where
  "properties_loop [] = Inr []"
| "properties_loop [l] = Inl IndexError"
| "properties_loop (l # t # rest) =
     (case from_string t of
        Inl e \<Rightarrow> Inl e
      | Inr dt \<Rightarrow>
          (case rest of
             [] \<Rightarrow> Inl IndexError
           | c # rest' \<Rightarrow>
               (case int_of_str c of
                  Inl e \<Rightarrow> Inl e
                | Inr n \<Rightarrow>
                    (case properties_loop rest' of
                       Inl e \<Rightarrow> Inl e
                     | Inr properties_list \<Rightarrow>
                         Inr (\<lparr>label = l, datatype_of = dt, column_count = n\<rparr> # properties_list)))))"

definition parse_properties :: "string \<Rightarrow> error + FrameProperties list" where
  "parse_properties s = properties_loop (split_on (CHR '':'') s)"

text \<open>
  Lines 103 to 120, for one value: \<open>int\<close>, else \<open>float\<close>, else the literals \<open>T\<close> and \<open>F\<close>,
  else the string itself.
\<close>

definition infer_value :: "(string \<Rightarrow> 'r option) \<Rightarrow> string \<Rightarrow> 'r scalar" where
  "infer_value pyfloat v =
     (case py_int v of
        Some int_val \<Rightarrow> PyInt int_val
      | None \<Rightarrow>
          (case pyfloat v of
             Some float_val \<Rightarrow> PyFloat float_val
           | None \<Rightarrow>
               if v = ''T'' then PyBool True
               else if v = ''F'' then PyBool False
               else PyStr v))"

definition parse_extended_comment ::
  "(string \<Rightarrow> 'r option) \<Rightarrow> string \<Rightarrow> error + 'r structured_comment" where
  "parse_extended_comment pyfloat comment =
     (let kv_pairs = findall comment;
          kv_dict = build_kv_dict kv_pairs
      in case dict_get kv_dict ''Lattice'' of
           Inl e \<Rightarrow> Inl e
         | Inr lattice_str \<Rightarrow>
             (case parse_lattice pyfloat lattice_str of
                Inl e \<Rightarrow> Inl e
              | Inr lattice_vectors \<Rightarrow>
                  (case dict_get kv_dict ''Properties'' of
                     Inl e \<Rightarrow> Inl e
                   | Inr properties_str \<Rightarrow>
                       (case parse_properties properties_str of
                          Inl e \<Rightarrow> Inl e
                        | Inr properties_list \<Rightarrow>
                            Inr \<lparr>Lattice = lattice_vectors,
                                 Properties = properties_list,
                                 others =
                                   map (\<lambda>(k, v). (k, infer_value pyfloat v))
                                     (filter (\<lambda>(k, v). k \<noteq> ''Lattice'' \<and> k \<noteq> ''Properties'')
                                        kv_dict)\<rparr>))))"

subsection \<open>\<open>__read_frame\<close> and \<open>__next__\<close>\<close>

text \<open>
  Lines 140 to 152: the loop over the schema for one row. \<open>raw_data[0]\<close> raises
  \<open>IndexError\<close> when the slice is empty.
\<close>

fun decode_row ::
  "(string \<Rightarrow> 'r option) \<Rightarrow> FrameProperties list \<Rightarrow> string list \<Rightarrow> int \<Rightarrow>
   (string \<times> 'r entry list) list \<Rightarrow> error + (string \<times> 'r entry list) list" where
  "decode_row pyfloat [] split offset data0 = Inr data0"
| "decode_row pyfloat (prop # props) split offset data0 =
     (let raw_data = py_slice split offset (offset + column_count prop);
          data1 = (if label prop \<notin> set (dict_keys data0)
                   then dict_set (label prop) [] data0 else data0)
      in if column_count prop = 1 then
           (case raw_data of
              [] \<Rightarrow> Inl IndexError
            | tok # _ \<Rightarrow>
                (case get_parser pyfloat (datatype_of prop) tok of
                   Inl e \<Rightarrow> Inl e
                 | Inr v \<Rightarrow>
                     decode_row pyfloat props split (offset + column_count prop)
                       (dict_append (label prop) (Single v) data1)))
         else
           (case map_raise (get_parser pyfloat (datatype_of prop)) raw_data of
              Inl e \<Rightarrow> Inl e
            | Inr vs \<Rightarrow>
                decode_row pyfloat props split (offset + column_count prop)
                  (dict_append (label prop) (Multi vs) data1)))"

text \<open>
  Lines 133 to 152: the loop \<open>for atom_idx in range(num_atoms)\<close>, with \<open>n\<close> iterations left;
  \<open>next(self.file)\<close> raises \<open>StopIteration\<close> at the end of the file, and the assertion
  (assertions are on, as the interpreter has them unless started with \<open>-O\<close>) raises
  \<open>AssertionError\<close> with the expected count, the count found and \<open>atom_idx + 3\<close>.
\<close>

fun read_rows ::
  "(string \<Rightarrow> 'r option) \<Rightarrow> FrameProperties list \<Rightarrow> int \<Rightarrow> nat \<Rightarrow> nat \<Rightarrow>
   (string \<times> 'r entry list) list \<Rightarrow> string list \<Rightarrow>
   (error + (string \<times> 'r entry list) list) \<times> string list" where
  "read_rows pyfloat props total_num_columns 0 atom_idx data0 file = (Inr data0, file)"
| "read_rows pyfloat props total_num_columns (Suc n) atom_idx data0 [] = (Inl StopIteration, [])"
| "read_rows pyfloat props total_num_columns (Suc n) atom_idx data0 (line # file) =
     (let split = split_ws line
      in if int (length split) \<noteq> total_num_columns
         then (Inl (AssertionError total_num_columns (length split) (atom_idx + 3)), file)
         else (case decode_row pyfloat props split 0 data0 of
                 Inl e \<Rightarrow> (Inl e, file)
               | Inr data2 \<Rightarrow>
                   read_rows pyfloat props total_num_columns n (Suc atom_idx) data2 file))"

text \<open>
  \<open>__read_frame\<close>. \<open>range(num_atoms)\<close> is empty for a count that is not positive, hence
  \<open>nat num_atoms\<close> iterations. \<open>ExtraKV\<close> is the dictionary without the keys \<open>Lattice\<close> and
  \<open>Properties\<close>, which is the field \<open>others\<close>.
\<close>

definition read_frame ::
  "(string \<Rightarrow> 'r option) \<Rightarrow> string list \<Rightarrow> (error + 'r ExtXYZFrame) \<times> string list" where
  "read_frame pyfloat file =
     (case file of
        [] \<Rightarrow> (Inl StopIteration, [])
      | count_line # file1 \<Rightarrow>
          (case int_of_str count_line of
             Inl e \<Rightarrow> (Inl e, file1)
           | Inr n \<Rightarrow>
               (case file1 of
                  [] \<Rightarrow> (Inl StopIteration, [])
                | comment # file2 \<Rightarrow>
                    (case parse_extended_comment pyfloat comment of
                       Inl e \<Rightarrow> (Inl e, file2)
                     | Inr sc \<Rightarrow>
                         (case read_rows pyfloat (Properties sc)
                                 (sum_list (map column_count (Properties sc)))
                                 (nat n) 0 [] file2 of
                            (Inl e, file3) \<Rightarrow> (Inl e, file3)
                          | (Inr d, file3) \<Rightarrow>
                              (Inr \<lparr>num_atoms = n,
                                    LatticeVectors = Lattice sc,
                                    FrameProps = Properties sc,
                                    ExtraKV = others sc,
                                    data = d\<rparr>,
                               file3))))))"

text \<open>\<open>__next__\<close> returns what \<open>__read_frame\<close> returns and lets its exceptions through.\<close>

definition reader_next ::
  "(string \<Rightarrow> 'r option) \<Rightarrow> string list \<Rightarrow> (error + 'r ExtXYZFrame) \<times> string list" where
  "reader_next pyfloat file = read_frame pyfloat file"

text \<open>
  For the evaluation of examples: \<open>float\<close> accepts every string that \<open>int\<close> accepts and
  returns the float of that integer, exact below \<open>2 ^ 53\<close>. \<open>float_of_int_literal\<close> is
  \<open>float\<close> cut down to those strings; the examples apply it only to integer literals and to
  tokens that \<open>float\<close> rejects as well.
\<close>

definition float_of_int_literal :: "string \<Rightarrow> rat option" where
  "float_of_int_literal s = map_option of_int (py_int s)"

text \<open>
  \<open>sep.join(fields)\<close>, for writing down a string of the form \<open>L1:T1:C1:L2:T2:C2:...\<close>.
\<close>

fun join_fields :: "char \<Rightarrow> string list \<Rightarrow> string" where
  "join_fields sep [] = []"
| "join_fields sep [x] = x"
| "join_fields sep (x # y # ys) = x @ sep # join_fields sep (y # ys)"

section \<open>Properties of the reader\<close>

text \<open>
  The specification names its errors \<open>MalformedHeader\<close>, \<open>MalformedRow\<close>, \<open>TypeMismatch\<close> and
  \<open>TruncatedFrame\<close>; the source raises Python's own exceptions. Below, a malformed header is
  a \<open>KeyError\<close>, \<open>ValueError\<close> or \<open>IndexError\<close> out of \<open>parse_extended_comment\<close>, a
  malformed row is the \<open>AssertionError\<close> of \<open>read_rows\<close>, a type mismatch is the
  \<open>ValueError\<close> of a column parser, and the end of the sequence is \<open>StopIteration\<close> out of
  \<open>reader_next\<close>.
\<close>

subsection \<open>Boolean columns\<close>

text \<open>
  C1. The claim: on a boolean column only the tokens \<open>T\<close> and \<open>F\<close> are accepted, as true
  and false, and any other token fails. The code does otherwise: the parser of a \<open>BOOL\<close>
  column is the builtin \<open>bool\<close>, which never raises and is true of every non-empty
  string. The token \<open>F\<close> is read as true, the token \<open>no\<close> is accepted and read as true,
  and a frame whose only row is \<open>F\<close> holds \<open>True\<close> in its column. The metadata path
  (\<open>infer_value\<close>) does compare with the literals \<open>T\<close> and \<open>F\<close>.
\<close>

theorem C1_bool_parser_is_truthiness:
  "get_parser pyfloat BOOL s = Inr (PyBool (s \<noteq> []))
   \<and> get_parser pyfloat BOOL ''F'' = Inr (PyBool True)
   \<and> get_parser pyfloat BOOL ''no'' = Inr (PyBool True)
   \<and> fst (read_frame float_of_int_literal
        [''1\<newline>'', ''Lattice=\"1 0 0 0 1 0 0 0 1\" Properties=fixed:B:1\<newline>'', ''F\<newline>''])
     = Inr \<lparr>num_atoms = 1, LatticeVectors = [(1, 0, 0), (0, 1, 0), (0, 0, 1)],
            FrameProps = [\<lparr>label = ''fixed'', datatype_of = BOOL, column_count = 1\<rparr>],
            ExtraKV = [], data = [(''fixed'', [Single (PyBool True)])]\<rparr>"
proof -
  have "fst (read_frame float_of_int_literal
        [''1\<newline>'', ''Lattice=\"1 0 0 0 1 0 0 0 1\" Properties=fixed:B:1\<newline>'', ''F\<newline>''])
     = Inr \<lparr>num_atoms = 1, LatticeVectors = [(1, 0, 0), (0, 1, 0), (0, 0, 1)],
            FrameProps = [\<lparr>label = ''fixed'', datatype_of = BOOL, column_count = 1\<rparr>],
            ExtraKV = [], data = [(''fixed'', [Single (PyBool True)])]\<rparr>"
    by code_simp
  then show ?thesis
    by simp
qed

subsection \<open>Frames without atoms\<close>

text \<open>
  C10. When the atom-count line reads 0 and the comment line parses, \<open>read_frame\<close> takes
  exactly these two lines from the file and returns a frame whose \<open>data\<close> is the empty
  dictionary, whatever the schema declares, with the count, the lattice, the schema and
  the other keys of the header.
\<close>

theorem C10_zero_atoms:
  assumes "py_int count_line = Some 0"
    and "parse_extended_comment pyfloat comment = Inr sc"
  shows "read_frame pyfloat (count_line # comment # rest) =
           (Inr \<lparr>num_atoms = 0, LatticeVectors = Lattice sc, FrameProps = Properties sc,
                 ExtraKV = others sc, data = []\<rparr>, rest)"
  using assms by (simp add: read_frame_def int_of_str_def)

theorem C10_zero_atoms_witness:
  "py_int ''0\<newline>'' = Some 0
   \<and> parse_extended_comment float_of_int_literal
        ''Lattice=\"1 0 0 0 1 0 0 0 1\" Properties=species:S:1:pos:R:3 Step=7\<newline>'' =
       Inr \<lparr>Lattice = [(1, 0, 0), (0, 1, 0), (0, 0, 1)],
            Properties = [\<lparr>label = ''species'', datatype_of = STRING, column_count = 1\<rparr>,
                          \<lparr>label = ''pos'', datatype_of = REAL, column_count = 3\<rparr>],
            others = [(''Step'', PyInt 7)]\<rparr>
   \<and> read_frame float_of_int_literal
        [''0\<newline>'',
         ''Lattice=\"1 0 0 0 1 0 0 0 1\" Properties=species:S:1:pos:R:3 Step=7\<newline>'',
         ''1\<newline>''] =
       (Inr \<lparr>num_atoms = 0, LatticeVectors = [(1, 0, 0), (0, 1, 0), (0, 0, 1)],
             FrameProps = [\<lparr>label = ''species'', datatype_of = STRING, column_count = 1\<rparr>,
                           \<lparr>label = ''pos'', datatype_of = REAL, column_count = 3\<rparr>],
             ExtraKV = [(''Step'', PyInt 7)], data = []\<rparr>,
        [''1\<newline>''])"
proof -
  have h1: "py_int ''0\<newline>'' = Some 0"
    by code_simp
  have h2: "parse_extended_comment float_of_int_literal
        ''Lattice=\"1 0 0 0 1 0 0 0 1\" Properties=species:S:1:pos:R:3 Step=7\<newline>'' =
       Inr \<lparr>Lattice = [(1, 0, 0), (0, 1, 0), (0, 0, 1)],
            Properties = [\<lparr>label = ''species'', datatype_of = STRING, column_count = 1\<rparr>,
                          \<lparr>label = ''pos'', datatype_of = REAL, column_count = 3\<rparr>],
            others = [(''Step'', PyInt 7)]\<rparr>"
    by code_simp
  from C10_zero_atoms [OF h1 h2, of "[''1\<newline>'']"] h1 h2 show ?thesis
    by simp
qed

subsection \<open>Facts about dictionaries\<close>

lemma map_of_dict_set: "map_of (dict_set k v d) = (map_of d)(k \<mapsto> v)"
  by (induction d) (auto simp: fun_eq_iff)

lemma keys_dict_set: "set (map fst (dict_set k v d)) = insert k (set (map fst d))"
  by (induction d) auto

lemma distinct_dict_set: "distinct (map fst d) \<Longrightarrow> distinct (map fst (dict_set k v d))"
  by (induction d) (auto simp: keys_dict_set simp flip: set_map)

lemma distinct_key_once:
  "distinct (map fst d) \<Longrightarrow> k \<in> set (map fst d) \<Longrightarrow> length (filter (\<lambda>p. fst p = k) d) = 1"
proof (induction d)
  case Nil
  then show ?case by simp
next
  case (Cons p d)
  show ?case
  proof (cases "fst p = k")
    case True
    with Cons.prems have "filter (\<lambda>q. fst q = k) d = []"
      by (fastforce simp: filter_empty_conv image_iff)
    with True show ?thesis by simp
  next
    case False
    with Cons show ?thesis by auto
  qed
qed

lemma fold_dict_set_distinct:
  "distinct (map fst acc) \<Longrightarrow>
   distinct (map fst (fold (\<lambda>(k, v) d. dict_set k (f v) d) ps acc))"
  by (induction ps arbitrary: acc) (auto simp: distinct_dict_set split: prod.splits)

lemma fold_dict_set_lookup:
  "map_of (fold (\<lambda>(k, v) d. dict_set k (f v) d) ps acc) k =
     (if filter (\<lambda>p. fst p = k) ps = [] then map_of acc k
      else Some (f (snd (last (filter (\<lambda>p. fst p = k) ps)))))"
proof (induction ps arbitrary: acc)
  case Nil
  show ?case by simp
next
  case (Cons p ps)
  obtain k' v' where p: "p = (k', v')"
    by (cases p)
  show ?case
    by (simp add: p Cons.IH map_of_dict_set)
qed

subsection \<open>Duplicate keys of the comment line\<close>

lemma map_of_typed_others:
  "map_of (map (\<lambda>(k, v). (k, f v)) (filter (\<lambda>(k, v). P k) d)) k =
     (if P k then map_option f (map_of d k) else None)"
  by (induction d) auto

lemma distinct_typed_others:
  "distinct (map fst d) \<Longrightarrow>
   distinct (map fst (map (\<lambda>(k, v). (k, f v)) (filter (\<lambda>(k, v). P k) d)))"
  by (induction d) (auto simp: image_iff split: prod.splits)

text \<open>
  C9. A key that occurs among the \<open>key=value\<close> matches of a comment line, once or several
  times, occurs exactly once in \<open>kv_dict\<close>, bound to the value of its last match with the
  double quotes stripped. When the comment line parses and the key is neither \<open>Lattice\<close>
  nor \<open>Properties\<close>, the key occurs exactly once among the other keys of the result as
  well, bound to that value as \<open>infer_value\<close> types it.
\<close>

theorem C9_duplicate_key_last_wins:
  assumes "k \<in> set (map fst (findall comment))"
  shows "length (filter (\<lambda>p. fst p = k) (build_kv_dict (findall comment))) = 1
         \<and> map_of (build_kv_dict (findall comment)) k =
             Some (strip_chars (\<lambda>c. c = dquote)
                     (snd (last (filter (\<lambda>p. fst p = k) (findall comment)))))
         \<and> (\<forall>sc. parse_extended_comment pyfloat comment = Inr sc
                 \<and> k \<noteq> ''Lattice'' \<and> k \<noteq> ''Properties'' \<longrightarrow>
               length (filter (\<lambda>p. fst p = k) (others sc)) = 1
               \<and> map_of (others sc) k =
                   Some (infer_value pyfloat
                           (strip_chars (\<lambda>c. c = dquote)
                              (snd (last (filter (\<lambda>p. fst p = k) (findall comment)))))))"
proof -
  let ?ps = "findall comment"
  let ?v = "strip_chars (\<lambda>c. c = dquote) (snd (last (filter (\<lambda>p. fst p = k) ?ps)))"
  from assms have ne: "filter (\<lambda>p. fst p = k) ?ps \<noteq> []"
    by (auto simp: filter_empty_conv)
  have lookup: "map_of (build_kv_dict ?ps) k = Some ?v"
    unfolding build_kv_dict_def using ne by (simp add: fold_dict_set_lookup)
  have dist: "distinct (map fst (build_kv_dict ?ps))"
    unfolding build_kv_dict_def by (rule fold_dict_set_distinct) simp
  moreover from lookup have "k \<in> set (map fst (build_kv_dict ?ps))"
    by (metis map_of_eq_None_iff option.distinct(1) set_map)
  ultimately have once: "length (filter (\<lambda>p. fst p = k) (build_kv_dict ?ps)) = 1"
    by (rule distinct_key_once)
  have typed: "length (filter (\<lambda>p. fst p = k) (others sc)) = 1
      \<and> map_of (others sc) k = Some (infer_value pyfloat ?v)"
    if sc: "parse_extended_comment pyfloat comment = Inr sc"
      and k: "k \<noteq> ''Lattice''" "k \<noteq> ''Properties''" for sc
  proof -
    from sc have o: "others sc =
        map (\<lambda>(k, v). (k, infer_value pyfloat v))
          (filter (\<lambda>(k, v). k \<noteq> ''Lattice'' \<and> k \<noteq> ''Properties'') (build_kv_dict ?ps))"
      by (auto simp: parse_extended_comment_def Let_def split: sum.splits)
    have m: "map_of (others sc) k = Some (infer_value pyfloat ?v)"
      unfolding o using k lookup
      by (simp add: map_of_typed_others [where P = "\<lambda>k. k \<noteq> ''Lattice'' \<and> k \<noteq> ''Properties''"])
    have "distinct (map fst (others sc))"
      unfolding o using dist
      by (rule distinct_typed_others [where P = "\<lambda>k. k \<noteq> ''Lattice'' \<and> k \<noteq> ''Properties''"])
    moreover from m have "k \<in> set (map fst (others sc))"
      by (metis map_of_eq_None_iff option.distinct(1) set_map)
    ultimately have "length (filter (\<lambda>p. fst p = k) (others sc)) = 1"
      by (rule distinct_key_once)
    with m show ?thesis
      by simp
  qed
  from once lookup typed show ?thesis
    by blast
qed

theorem C9_duplicate_key_last_wins_witness:
  "findall ''Lattice=\"1 0 0 0 1 0 0 0 1\" Properties=s:S:1 a=1 b=\"x y\" a=\"T\" c=3 a=42'' =
     [(''Lattice'', ''\"1 0 0 0 1 0 0 0 1\"''), (''Properties'', ''s:S:1''), (''a'', ''1''),
      (''b'', ''\"x y\"''), (''a'', ''\"T\"''), (''c'', ''3''), (''a'', ''42'')]
   \<and> ''a'' \<in> set (map fst
         (findall ''Lattice=\"1 0 0 0 1 0 0 0 1\" Properties=s:S:1 a=1 b=\"x y\" a=\"T\" c=3 a=42''))
   \<and> build_kv_dict
         (findall ''Lattice=\"1 0 0 0 1 0 0 0 1\" Properties=s:S:1 a=1 b=\"x y\" a=\"T\" c=3 a=42'') =
       [(''Lattice'', ''1 0 0 0 1 0 0 0 1''), (''Properties'', ''s:S:1''), (''a'', ''42''),
        (''b'', ''x y''), (''c'', ''3'')]
   \<and> parse_extended_comment float_of_int_literal
         ''Lattice=\"1 0 0 0 1 0 0 0 1\" Properties=s:S:1 a=1 b=\"x y\" a=\"T\" c=3 a=42'' =
       Inr \<lparr>Lattice = [(1, 0, 0), (0, 1, 0), (0, 0, 1)],
            Properties = [\<lparr>label = ''s'', datatype_of = STRING, column_count = 1\<rparr>],
            others = [(''a'', PyInt 42), (''b'', PyStr ''x y''), (''c'', PyInt 3)]\<rparr>
   \<and> length (filter (\<lambda>p. fst p = ''a'')
         (build_kv_dict (findall
            ''Lattice=\"1 0 0 0 1 0 0 0 1\" Properties=s:S:1 a=1 b=\"x y\" a=\"T\" c=3 a=42''))) = 1
   \<and> map_of (build_kv_dict (findall
         ''Lattice=\"1 0 0 0 1 0 0 0 1\" Properties=s:S:1 a=1 b=\"x y\" a=\"T\" c=3 a=42'')) ''a'' =
       Some ''42''
   \<and> length (filter (\<lambda>p. fst p = ''a'')
         [(''a'', PyInt 42), (''b'', PyStr ''x y''), (''c'', PyInt (3 :: int)) :: string \<times> rat scalar]) = 1
   \<and> map_of [(''a'', PyInt 42), (''b'', PyStr ''x y''), (''c'', PyInt 3) :: string \<times> rat scalar] ''a'' =
       Some (PyInt 42)"
proof -
  let ?c = "''Lattice=\"1 0 0 0 1 0 0 0 1\" Properties=s:S:1 a=1 b=\"x y\" a=\"T\" c=3 a=42''"
  let ?sc = "\<lparr>Lattice = [(1, 0, 0), (0, 1, 0), (0, 0, 1 :: rat)],
            Properties = [\<lparr>label = ''s'', datatype_of = STRING, column_count = 1\<rparr>],
            others = [(''a'', PyInt 42), (''b'', PyStr ''x y''), (''c'', PyInt 3)]\<rparr>"
  have f: "findall ?c =
     [(''Lattice'', ''\"1 0 0 0 1 0 0 0 1\"''), (''Properties'', ''s:S:1''), (''a'', ''1''),
      (''b'', ''\"x y\"''), (''a'', ''\"T\"''), (''c'', ''3''), (''a'', ''42'')]"
    by code_simp
  have h: "''a'' \<in> set (map fst (findall ?c))"
    unfolding f by simp
  have b: "build_kv_dict (findall ?c) =
       [(''Lattice'', ''1 0 0 0 1 0 0 0 1''), (''Properties'', ''s:S:1''), (''a'', ''42''),
        (''b'', ''x y''), (''c'', ''3'')]"
    by code_simp
  have p: "parse_extended_comment float_of_int_literal ?c = Inr ?sc"
    by code_simp
  have s: "strip_chars (\<lambda>c. c = dquote) ''42'' = ''42''"
    by (simp add: strip_chars_def)
  have i: "infer_value float_of_int_literal ''42'' = PyInt 42"
    by code_simp
  note c = C9_duplicate_key_last_wins [OF h, of float_of_int_literal]
  from c have c1: "length (filter (\<lambda>p. fst p = ''a'') (build_kv_dict (findall ?c))) = 1"
    by (rule conjunct1)
  have c2: "map_of (build_kv_dict (findall ?c)) ''a'' = Some ''42''"
    using c unfolding f by (simp add: s)
  from c p have c34: "length (filter (\<lambda>p. fst p = ''a'') (others ?sc)) = 1
      \<and> map_of (others ?sc) ''a'' =
          Some (infer_value float_of_int_literal
                  (strip_chars (\<lambda>c. c = dquote)
                     (snd (last (filter (\<lambda>p. fst p = ''a'') (findall ?c))))))"
    by simp
  from c34 have c3: "length (filter (\<lambda>p. fst p = ''a'')
      [(''a'', PyInt 42), (''b'', PyStr ''x y''), (''c'', PyInt (3 :: int)) :: string \<times> rat scalar]) = 1"
    by simp
  have c4: "map_of [(''a'', PyInt 42), (''b'', PyStr ''x y''), (''c'', PyInt 3) :: string \<times> rat scalar] ''a'' =
       Some (PyInt 42)"
    using c34 unfolding f by (simp add: s i)
  show ?thesis
    by (intro conjI) (rule f, rule h, rule b, rule p, rule c1, rule c2, rule c3, rule c4)
qed

subsection \<open>The lattice\<close>

lemma map_raise_float:
  "map pyfloat ts = map Some rs \<Longrightarrow> map_raise (float_of_str pyfloat) ts = Inr rs"
  by (induction ts arbitrary: rs) (auto simp: float_of_str_def)

text \<open>
  C8. A \<open>Lattice\<close> string that splits on whitespace into exactly nine tokens, each read by
  \<open>float\<close>, decodes to three triples that hold the nine reals in input order.
\<close>

theorem C8_lattice_of_nine_reals:
  assumes "map pyfloat (split_ws s) = map Some [a1, a2, a3, b1, b2, b3, c1, c2, c3]"
  shows "parse_lattice pyfloat s = Inr [(a1, a2, a3), (b1, b2, b3), (c1, c2, c3)]"
  using map_raise_float [OF assms] by (simp add: parse_lattice_def)

theorem C8_lattice_of_nine_reals_witness:
  "map float_of_int_literal (split_ws ''1 0 0 0 1 0 0 0 1'') = map Some [1, 0, 0, 0, 1, 0, 0, 0, 1]
   \<and> parse_lattice float_of_int_literal ''1 0 0 0 1 0 0 0 1'' = Inr [(1, 0, 0), (0, 1, 0), (0, 0, 1)]"
proof -
  have h: "map float_of_int_literal (split_ws ''1 0 0 0 1 0 0 0 1'') =
           map Some [1, 0, 0, 0, 1, 0, 0, 0, 1]"
    by code_simp
  from C8_lattice_of_nine_reals [OF h] h show ?thesis
    by simp
qed

subsection \<open>The schema\<close>

lemma split_field_no_sep: "sep \<notin> set x \<Longrightarrow> split_field sep cur x = [cur @ x]"
  by (induction x arbitrary: cur) auto

lemma split_field_sep:
  "sep \<notin> set x \<Longrightarrow> split_field sep cur (x @ sep # rest) = (cur @ x) # split_field sep [] rest"
  by (induction x arbitrary: cur) auto

lemma split_on_join_fields:
  "fs \<noteq> [] \<Longrightarrow> \<forall>f \<in> set fs. sep \<notin> set f \<Longrightarrow>
   split_on sep (join_fields sep fs) = fs"
  unfolding split_on_def
  by (induction sep fs rule: join_fields.induct)
     (simp_all add: split_field_no_sep split_field_sep)

lemma from_string_no_colon: "from_string t = Inr dt \<Longrightarrow> CHR '':'' \<notin> set t"
  by (auto simp: from_string_def split: if_splits)

lemma int_digits_chars:
  "int_digits acc cs = Some n \<Longrightarrow> \<forall>x \<in> set cs. is_digit x \<or> x = CHR ''_''"
  by (induction acc cs arbitrary: n rule: int_digits.induct) (auto split: if_splits)

lemma nat_literal_chars:
  "nat_literal cs = Some n \<Longrightarrow> \<forall>x \<in> set cs. is_digit x \<or> x = CHR ''_''"
  by (auto simp: nat_literal_def split: list.splits if_splits dest: int_digits_chars)

lemma set_strip_chars: "set s \<subseteq> set (strip_chars P s) \<union> Collect P"
proof -
  have a: "set xs \<subseteq> set (dropWhile P xs) \<union> Collect P" for xs :: string
  proof -
    have "set xs = set (takeWhile P xs) \<union> set (dropWhile P xs)"
      by (metis set_append takeWhile_dropWhile_id)
    then show ?thesis
      by (auto dest: set_takeWhileD)
  qed
  have "set (dropWhile P s) = set (rev (dropWhile P s))"
    by simp
  also have "\<dots> \<subseteq> set (dropWhile P (rev (dropWhile P s))) \<union> Collect P"
    by (rule a)
  finally have "set (dropWhile P s) \<subseteq> set (strip_chars P s) \<union> Collect P"
    by (simp add: strip_chars_def)
  with a [of s] show ?thesis
    by blast
qed

lemma py_int_no_colon:
  assumes "py_int c = Some n"
  shows "CHR '':'' \<notin> set c"
proof
  assume "CHR '':'' \<in> set c"
  moreover have "\<not> is_int_space (CHR '':'')"
    by (simp add: is_int_space_def)
  ultimately have mem: "CHR '':'' \<in> set (strip_chars is_int_space c)"
    using set_strip_chars [of c is_int_space] by auto
  have nd: "\<not> (is_digit (CHR '':'') \<or> CHR '':'' = CHR ''_'')"
    by (simp add: is_digit_def)
  from assms obtain x xs where s: "strip_chars is_int_space c = x # xs"
    by (auto simp: py_int_def split: list.splits)
  from assms s have "(\<exists>m. nat_literal xs = Some m \<and> (x = CHR ''-'' \<or> x = CHR ''+''))
      \<or> (\<exists>m. nat_literal (x # xs) = Some m)"
    by (auto simp: py_int_def split: if_splits)
  then show False
  proof
    assume "\<exists>m. nat_literal xs = Some m \<and> (x = CHR ''-'' \<or> x = CHR ''+'')"
    then obtain m where "nat_literal xs = Some m" and "x = CHR ''-'' \<or> x = CHR ''+''"
      by blast
    with mem s nd nat_literal_chars [of xs m] show False
      by auto
  next
    assume "\<exists>m. nat_literal (x # xs) = Some m"
    then obtain m where "nat_literal (x # xs) = Some m"
      by blast
    with mem s nd nat_literal_chars [of "x # xs" m] show False
      by auto
  qed
qed

lemma properties_loop_triples:
  assumes "\<forall>(l, t, c) \<in> set triples. (\<exists>dt. from_string t = Inr dt) \<and> (\<exists>n. py_int c = Some n)"
  shows "properties_loop (concat (map (\<lambda>(l, t, c). [l, t, c]) triples)) =
           Inr (map (\<lambda>(l, t, c). \<lparr>label = l, datatype_of = projr (from_string t),
                                   column_count = the (py_int c)\<rparr>) triples)"
  using assms
proof (induction triples)
  case Nil
  show ?case by simp
next
  case (Cons x triples)
  obtain l t c where x: "x = (l, t, c)"
    by (cases x)
  from Cons.prems x obtain dt n where dt: "from_string t = Inr dt" and n: "py_int c = Some n"
    by auto
  from Cons have "properties_loop (concat (map (\<lambda>(l, t, c). [l, t, c]) triples)) =
           Inr (map (\<lambda>(l, t, c). \<lparr>label = l, datatype_of = projr (from_string t),
                                   column_count = the (py_int c)\<rparr>) triples)"
    by simp
  with dt n show ?case
    by (simp add: x int_of_str_def)
qed

lemma from_string_codes:
  "t \<in> {''S'', ''R'', ''I'', ''B''} \<Longrightarrow>
   from_string t =
     Inr (if t = ''S'' then STRING else if t = ''R'' then REAL else if t = ''I'' then INT' else BOOL)"
  by (auto simp: from_string_def)

text \<open>
  C7. A \<open>Properties\<close> string \<open>L1:T1:C1:L2:T2:C2:...\<close> of at least one triple, whose labels
  hold no colon, whose type codes are among \<open>S\<close>, \<open>R\<close>, \<open>I\<close>, \<open>B\<close> and whose counts \<open>int\<close>
  reads, decodes to a schema with one \<open>FrameProperties\<close> per triple, in input order, that
  holds the label of its triple, the type of its code (\<open>S\<close> the strings, \<open>R\<close> the reals,
  \<open>I\<close> the integers, \<open>B\<close> the booleans) and the integer that its count denotes.
\<close>

theorem C7_schema_per_triple:
  assumes "triples \<noteq> []"
    and "\<forall>(l, t, c) \<in> set triples.
           CHR '':'' \<notin> set l \<and> t \<in> {''S'', ''R'', ''I'', ''B''} \<and> (\<exists>n. py_int c = Some n)"
  shows "\<exists>schema.
           parse_properties
             (join_fields (CHR '':'') (concat (map (\<lambda>(l, t, c). [l, t, c]) triples))) = Inr schema
           \<and> length schema = length triples
           \<and> (\<forall>i < length triples.
                 case triples ! i of (l, t, c) \<Rightarrow>
                   label (schema ! i) = l
                   \<and> datatype_of (schema ! i) =
                       (if t = ''S'' then STRING else if t = ''R'' then REAL
                        else if t = ''I'' then INT' else BOOL)
                   \<and> py_int c = Some (column_count (schema ! i)))"
proof -
  let ?fs = "concat (map (\<lambda>(l, t, c). [l, t, c]) triples)"
  let ?schema = "map (\<lambda>(l, t, c). \<lparr>label = l, datatype_of = projr (from_string t),
                                   column_count = the (py_int c)\<rparr>) triples"
  have codes: "\<forall>(l, t, c) \<in> set triples. (\<exists>dt. from_string t = Inr dt) \<and> (\<exists>n. py_int c = Some n)"
    using assms(2) by (fastforce simp: from_string_def)
  from assms(1) have ne: "?fs \<noteq> []"
    by (cases triples) auto
  have nc: "\<forall>f \<in> set ?fs. CHR '':'' \<notin> set f"
    using assms(2) codes by (auto dest: from_string_no_colon py_int_no_colon)
  have "split_on (CHR '':'') (join_fields (CHR '':'') ?fs) = ?fs"
    using ne nc by (rule split_on_join_fields)
  moreover have "properties_loop ?fs = Inr ?schema"
    using codes by (rule properties_loop_triples)
  ultimately have p: "parse_properties (join_fields (CHR '':'') ?fs) = Inr ?schema"
    by (simp add: parse_properties_def)
  have "case triples ! i of (l, t, c) \<Rightarrow>
          label (?schema ! i) = l
          \<and> datatype_of (?schema ! i) =
              (if t = ''S'' then STRING else if t = ''R'' then REAL
               else if t = ''I'' then INT' else BOOL)
          \<and> py_int c = Some (column_count (?schema ! i))" if "i < length triples" for i
  proof -
    obtain l t c where x: "triples ! i = (l, t, c)"
      by (cases "triples ! i")
    from that have "(l, t, c) \<in> set triples"
      using x by (metis nth_mem)
    with assms(2) obtain n where t: "t \<in> {''S'', ''R'', ''I'', ''B''}" and "py_int c = Some n"
      by auto
    with that x from_string_codes [OF t] show ?thesis
      by simp
  qed
  with p show ?thesis
    by (intro exI [of _ ?schema]) simp
qed

theorem C7_schema_per_triple_witness:
  "[(''species'', ''S'', ''1''), (''pos'', ''R'', ''3''), (''charge'', ''I'', ''+1''),
    (''fixed'', ''B'', ''1_0'')] \<noteq> []
   \<and> CHR '':'' \<notin> set ''species'' \<and> CHR '':'' \<notin> set ''pos'' \<and> CHR '':'' \<notin> set ''charge''
   \<and> CHR '':'' \<notin> set ''fixed''
   \<and> ''S'' \<in> {''S'', ''R'', ''I'', ''B''} \<and> ''R'' \<in> {''S'', ''R'', ''I'', ''B''}
   \<and> ''I'' \<in> {''S'', ''R'', ''I'', ''B''} \<and> ''B'' \<in> {''S'', ''R'', ''I'', ''B''}
   \<and> py_int ''1'' = Some 1 \<and> py_int ''3'' = Some 3 \<and> py_int ''+1'' = Some 1
   \<and> py_int ''1_0'' = Some 10
   \<and> join_fields (CHR '':'')
        (concat (map (\<lambda>(l, t, c). [l, t, c])
           [(''species'', ''S'', ''1''), (''pos'', ''R'', ''3''), (''charge'', ''I'', ''+1''),
            (''fixed'', ''B'', ''1_0'')])) =
       ''species:S:1:pos:R:3:charge:I:+1:fixed:B:1_0''
   \<and> parse_properties ''species:S:1:pos:R:3:charge:I:+1:fixed:B:1_0'' =
       Inr [\<lparr>label = ''species'', datatype_of = STRING, column_count = 1\<rparr>,
            \<lparr>label = ''pos'', datatype_of = REAL, column_count = 3\<rparr>,
            \<lparr>label = ''charge'', datatype_of = INT', column_count = 1\<rparr>,
            \<lparr>label = ''fixed'', datatype_of = BOOL, column_count = 10\<rparr>]"
proof -
  let ?ts = "[(''species'', ''S'', ''1''), (''pos'', ''R'', ''3''), (''charge'', ''I'', ''+1''),
              (''fixed'', ''B'', ''1_0'')]"
  have i1: "py_int ''1'' = Some 1" and i3: "py_int ''3'' = Some 3"
    and i4: "py_int ''+1'' = Some 1" and i5: "py_int ''1_0'' = Some 10"
    by code_simp+
  have h1: "?ts \<noteq> []"
    by simp
  have h2: "\<forall>(l, t, c) \<in> set ?ts.
         CHR '':'' \<notin> set l \<and> t \<in> {''S'', ''R'', ''I'', ''B''} \<and> (\<exists>n. py_int c = Some n)"
    by (simp add: i1 i3 i4 i5)
  have j: "join_fields (CHR '':'') (concat (map (\<lambda>(l, t, c). [l, t, c]) ?ts)) =
       ''species:S:1:pos:R:3:charge:I:+1:fixed:B:1_0''"
    by simp
  from C7_schema_per_triple [OF h1 h2] obtain schema where
    p: "parse_properties (join_fields (CHR '':'') (concat (map (\<lambda>(l, t, c). [l, t, c]) ?ts))) = Inr schema"
    and len: "length schema = length ?ts"
    and every: "\<forall>i < length ?ts. case ?ts ! i of (l, t, c) \<Rightarrow>
                   label (schema ! i) = l
                   \<and> datatype_of (schema ! i) =
                       (if t = ''S'' then STRING else if t = ''R'' then REAL
                        else if t = ''I'' then INT' else BOOL)
                   \<and> py_int c = Some (column_count (schema ! i))"
    by blast
  from every [rule_format, of 0] have e0:
    "schema ! 0 = \<lparr>label = ''species'', datatype_of = STRING, column_count = 1\<rparr>"
    by (cases "schema ! 0") (simp add: i1)
  from every [rule_format, of 1] have e1:
    "schema ! 1 = \<lparr>label = ''pos'', datatype_of = REAL, column_count = 3\<rparr>"
    by (cases "schema ! 1") (simp add: i3)
  from every [rule_format, of 2] have e2:
    "schema ! 2 = \<lparr>label = ''charge'', datatype_of = INT', column_count = 1\<rparr>"
    by (cases "schema ! 2") (simp add: i4)
  from every [rule_format, of 3] have e3:
    "schema ! 3 = \<lparr>label = ''fixed'', datatype_of = BOOL, column_count = 10\<rparr>"
    by (cases "schema ! 3") (simp add: i5)
  from len have "length schema = 4"
    by simp
  then have "schema = [schema ! 0, schema ! 1, schema ! 2, schema ! 3]"
    by (auto simp: list_eq_iff_nth_eq less_Suc_eq numeral_eq_Suc)
  with e0 e1 e2 e3 have "schema =
       [\<lparr>label = ''species'', datatype_of = STRING, column_count = 1\<rparr>,
        \<lparr>label = ''pos'', datatype_of = REAL, column_count = 3\<rparr>,
        \<lparr>label = ''charge'', datatype_of = INT', column_count = 1\<rparr>,
        \<lparr>label = ''fixed'', datatype_of = BOOL, column_count = 10\<rparr>]"
    by simp
  with p have c: "parse_properties ''species:S:1:pos:R:3:charge:I:+1:fixed:B:1_0'' =
       Inr [\<lparr>label = ''species'', datatype_of = STRING, column_count = 1\<rparr>,
            \<lparr>label = ''pos'', datatype_of = REAL, column_count = 3\<rparr>,
            \<lparr>label = ''charge'', datatype_of = INT', column_count = 1\<rparr>,
            \<lparr>label = ''fixed'', datatype_of = BOOL, column_count = 10\<rparr>]"
    unfolding j by simp
  from h1 i1 i3 i4 i5 j c show ?thesis
    by simp
qed

subsection \<open>The count of lattice values\<close>

lemma zip3_length: "length (zip3 rs) = length rs div 3"
  by (induction rs rule: zip3.induct) simp_all

lemma zip3_nth:
  "i < length rs div 3 \<Longrightarrow> zip3 rs ! i = (rs ! (3 * i), rs ! (3 * i + 1), rs ! (3 * i + 2))"
proof (induction rs arbitrary: i rule: zip3.induct)
  case (1 a b c xs)
  show ?case
  proof (cases i)
    case 0
    then show ?thesis by simp
  next
    case (Suc j)
    with "1.prems" have "j < length xs div 3"
      by simp
    then have "zip3 xs ! j = (xs ! (3 * j), xs ! (3 * j + 1), xs ! (3 * j + 2))"
      by (rule "1.IH")
    with Suc show ?thesis
      by simp
  qed
qed simp_all

lemma map_raise_float_error:
  "t \<in> set ts \<Longrightarrow> pyfloat t = None \<Longrightarrow> map_raise (float_of_str pyfloat) ts = Inl ValueError"
  by (induction ts) (auto simp: float_of_str_def split: option.splits sum.splits)

text \<open>
  C3, as the code has it. The claim: a \<open>Lattice\<close> value of fewer or more than nine reals,
  or a missing \<open>Lattice\<close> key, is an error. The source looks the key up, which raises
  \<open>KeyError\<close> when it is missing, and draws every token through \<open>float\<close>, which raises
  \<open>ValueError\<close> on a token that is no real; it never counts the reals. A value of \<open>n\<close>
  reals is accepted whatever \<open>n\<close> is: the parser goes on to \<open>Properties\<close>, and the lattice
  of the result holds \<open>n div 3\<close> triples, the reals grouped consecutively in input order
  and the last \<open>n mod 3\<close> of them dropped.
\<close>

theorem C3_lattice_groups_of_three:
  assumes "build_kv_dict (findall comment) = kv_dict"
  shows "(map_of kv_dict ''Lattice'' = None \<longrightarrow>
            parse_extended_comment pyfloat comment = Inl (KeyError ''Lattice''))
       \<and> (\<forall>s. map_of kv_dict ''Lattice'' = Some s \<and> (\<exists>t \<in> set (split_ws s). pyfloat t = None) \<longrightarrow>
            parse_extended_comment pyfloat comment = Inl ValueError)
       \<and> (\<forall>s rs ps schema.
            map_of kv_dict ''Lattice'' = Some s \<and> map pyfloat (split_ws s) = map Some rs
            \<and> map_of kv_dict ''Properties'' = Some ps \<and> parse_properties ps = Inr schema \<longrightarrow>
            (\<exists>sc. parse_extended_comment pyfloat comment = Inr sc
                \<and> length (Lattice sc) = length rs div 3
                \<and> (\<forall>i < length rs div 3.
                      Lattice sc ! i = (rs ! (3 * i), rs ! (3 * i + 1), rs ! (3 * i + 2)))))"
proof (intro conjI allI impI)
  assume "map_of kv_dict ''Lattice'' = None"
  then show "parse_extended_comment pyfloat comment = Inl (KeyError ''Lattice'')"
    by (simp add: parse_extended_comment_def assms dict_get_def)
next
  fix s
  assume "map_of kv_dict ''Lattice'' = Some s \<and> (\<exists>t \<in> set (split_ws s). pyfloat t = None)"
  then show "parse_extended_comment pyfloat comment = Inl ValueError"
    by (auto simp: parse_extended_comment_def assms dict_get_def parse_lattice_def
        map_raise_float_error)
next
  fix s rs ps schema
  assume a: "map_of kv_dict ''Lattice'' = Some s \<and> map pyfloat (split_ws s) = map Some rs
            \<and> map_of kv_dict ''Properties'' = Some ps \<and> parse_properties ps = Inr schema"
  then have "map_raise (float_of_str pyfloat) (split_ws s) = Inr rs"
    by (simp add: map_raise_float)
  with a have "\<exists>sc. parse_extended_comment pyfloat comment = Inr sc \<and> Lattice sc = zip3 rs"
    by (simp add: parse_extended_comment_def assms dict_get_def parse_lattice_def)
  then show "\<exists>sc. parse_extended_comment pyfloat comment = Inr sc
                \<and> length (Lattice sc) = length rs div 3
                \<and> (\<forall>i < length rs div 3.
                      Lattice sc ! i = (rs ! (3 * i), rs ! (3 * i + 1), rs ! (3 * i + 2)))"
    by (auto simp: zip3_length zip3_nth)
qed

theorem C3_lattice_groups_of_three_witness:
  "map_of (build_kv_dict (findall ''Properties=species:S:1'')) ''Lattice'' = None
   \<and> parse_extended_comment float_of_int_literal ''Properties=species:S:1'' =
       Inl (KeyError ''Lattice'')
   \<and> map_of (build_kv_dict (findall ''Lattice=\"1 x 0\" Properties=species:S:1'')) ''Lattice'' =
       Some ''1 x 0''
   \<and> ''x'' \<in> set (split_ws ''1 x 0'') \<and> float_of_int_literal ''x'' = None
   \<and> parse_extended_comment float_of_int_literal ''Lattice=\"1 x 0\" Properties=species:S:1'' =
       Inl ValueError
   \<and> map_of (build_kv_dict (findall ''Lattice=\"1 0 0 0 1 0\" Properties=species:S:1''))
         ''Lattice'' = Some ''1 0 0 0 1 0''
   \<and> map float_of_int_literal (split_ws ''1 0 0 0 1 0'') = map Some [1, 0, 0, 0, 1, 0]
   \<and> map_of (build_kv_dict (findall ''Lattice=\"1 0 0 0 1 0\" Properties=species:S:1''))
         ''Properties'' = Some ''species:S:1''
   \<and> parse_properties ''species:S:1'' =
       Inr [\<lparr>label = ''species'', datatype_of = STRING, column_count = 1\<rparr>]
   \<and> (\<exists>sc. parse_extended_comment float_of_int_literal
              ''Lattice=\"1 0 0 0 1 0\" Properties=species:S:1'' = Inr sc
          \<and> length (Lattice sc) = 2 \<and> Lattice sc ! 0 = (1, 0, 0) \<and> Lattice sc ! 1 = (0, 1, 0))"
proof -
  let ?c1 = "''Properties=species:S:1''"
  let ?c2 = "''Lattice=\"1 x 0\" Properties=species:S:1''"
  let ?c3 = "''Lattice=\"1 0 0 0 1 0\" Properties=species:S:1''"
  note thm1 = C3_lattice_groups_of_three [OF refl, of ?c1 float_of_int_literal]
  note thm2 = C3_lattice_groups_of_three [OF refl, of ?c2 float_of_int_literal]
  note thm3 = C3_lattice_groups_of_three [OF refl, of ?c3 float_of_int_literal]
  have a1: "map_of (build_kv_dict (findall ?c1)) ''Lattice'' = None"
    by code_simp
  from thm1 a1 have a2: "parse_extended_comment float_of_int_literal ?c1 = Inl (KeyError ''Lattice'')"
    by blast
  have b1: "map_of (build_kv_dict (findall ?c2)) ''Lattice'' = Some ''1 x 0''"
    by code_simp
  have b2: "''x'' \<in> set (split_ws ''1 x 0'')"
    by code_simp
  have b3: "float_of_int_literal ''x'' = None"
    by code_simp
  from thm2 b1 b2 b3 have b4: "parse_extended_comment float_of_int_literal ?c2 = Inl ValueError"
    by blast
  have c1: "map_of (build_kv_dict (findall ?c3)) ''Lattice'' = Some ''1 0 0 0 1 0''"
    by code_simp
  have c2: "map float_of_int_literal (split_ws ''1 0 0 0 1 0'') = map Some [1, 0, 0, 0, 1, 0]"
    by code_simp
  have c3: "map_of (build_kv_dict (findall ?c3)) ''Properties'' = Some ''species:S:1''"
    by code_simp
  have c4: "parse_properties ''species:S:1'' =
       Inr [\<lparr>label = ''species'', datatype_of = STRING, column_count = 1\<rparr>]"
    by code_simp
  from thm3 c1 c2 c3 c4 obtain sc where
    sc: "parse_extended_comment float_of_int_literal ?c3 = Inr sc"
    and len: "length (Lattice sc) = length [1, 0, 0, 0, 1, 0 :: rat] div 3"
    and nth: "\<forall>i < length [1, 0, 0, 0, 1, 0 :: rat] div 3.
                Lattice sc ! i = ([1, 0, 0, 0, 1, 0] ! (3 * i), [1, 0, 0, 0, 1, 0] ! (3 * i + 1),
                                  [1, 0, 0, 0, 1, 0] ! (3 * i + 2))"
    by blast
  from len have len2: "length (Lattice sc) = 2"
    by simp
  from nth [rule_format, of 0] have n0: "Lattice sc ! 0 = (1, 0, 0)"
    by simp
  from nth [rule_format, of 1] have n1: "Lattice sc ! 1 = (0, 1, 0)"
    by simp
  from sc len2 n0 n1 have c5: "\<exists>sc. parse_extended_comment float_of_int_literal ?c3 = Inr sc
          \<and> length (Lattice sc) = 2 \<and> Lattice sc ! 0 = (1, 0, 0) \<and> Lattice sc ! 1 = (0, 1, 0)"
    by blast
  show ?thesis
    by (intro conjI) (rule a1, rule a2, rule b1, rule b2, rule b3, rule b4, rule c1, rule c2,
        rule c3, rule c4, rule c5)
qed

text \<open>
  C3 fails as stated: a \<open>Lattice\<close> value of six reals parses to two vectors, one of ten
  reals to three vectors, the tenth real being dropped, and one of twelve reals to four
  vectors, each time without an error.
\<close>

theorem C3_lattice_count_unchecked:
  "parse_extended_comment float_of_int_literal
     ''Lattice=\"1 0 0 0 1 0\" Properties=species:S:1'' =
     Inr \<lparr>Lattice = [(1, 0, 0), (0, 1, 0)],
          Properties = [\<lparr>label = ''species'', datatype_of = STRING, column_count = 1\<rparr>],
          others = []\<rparr>
   \<and> parse_extended_comment float_of_int_literal
     ''Lattice=\"1 0 0 0 1 0 0 0 1 5\" Properties=species:S:1'' =
     Inr \<lparr>Lattice = [(1, 0, 0), (0, 1, 0), (0, 0, 1)],
          Properties = [\<lparr>label = ''species'', datatype_of = STRING, column_count = 1\<rparr>],
          others = []\<rparr>
   \<and> parse_extended_comment float_of_int_literal
     ''Lattice=\"1 0 0 0 1 0 0 0 1 2 2 2\" Properties=species:S:1'' =
     Inr \<lparr>Lattice = [(1, 0, 0), (0, 1, 0), (0, 0, 1), (2, 2, 2)],
          Properties = [\<lparr>label = ''species'', datatype_of = STRING, column_count = 1\<rparr>],
          others = []\<rparr>"
  by code_simp

subsection \<open>Malformed schemas\<close>

lemma properties_loop_errors:
  "properties_loop fs = Inl e \<Longrightarrow> e = ValueError \<or> e = IndexError"
  by (induction fs arbitrary: e rule: properties_loop.induct)
     (auto simp: from_string_def int_of_str_def split: sum.splits list.splits if_splits option.splits)

lemma properties_loop_stride:
  "length fs mod 3 \<noteq> 0 \<Longrightarrow> isl (properties_loop fs)"
proof (induction fs rule: properties_loop.induct)
  case (3 l t rest)
  show ?case
  proof (cases "properties_loop (l # t # rest)")
    case (Inl e)
    then show ?thesis by simp
  next
    case (Inr schema)
    then obtain dt c rest' n where dt: "from_string t = Inr dt" and r: "rest = c # rest'"
      and n: "int_of_str c = Inr n"
      by (auto split: sum.splits list.splits)
    from "3.prems" r have "length rest' mod 3 \<noteq> 0"
      by simp
    then have "isl (properties_loop rest')"
      by (rule "3.IH" [OF dt r n])
    then show ?thesis
      by (auto simp: dt r n split: sum.splits)
  qed
qed simp_all

lemma properties_loop_bad_code:
  "3 * i + 1 < length fs \<Longrightarrow> fs ! (3 * i + 1) \<notin> {''S'', ''R'', ''I'', ''B''} \<Longrightarrow>
   isl (properties_loop fs)"
proof (induction fs arbitrary: i rule: properties_loop.induct)
  case (3 l t rest)
  show ?case
  proof (cases i)
    case 0
    with "3.prems" have "from_string t = Inl ValueError"
      by (auto simp: from_string_def)
    then show ?thesis by simp
  next
    case (Suc j)
    show ?thesis
    proof (cases "properties_loop (l # t # rest)")
      case (Inl e)
      then show ?thesis by simp
    next
      case (Inr schema)
      then obtain dt c rest' n where dt: "from_string t = Inr dt" and r: "rest = c # rest'"
        and n: "int_of_str c = Inr n"
        by (auto split: sum.splits list.splits)
      from "3.prems" Suc r have "3 * j + 1 < length rest'"
        and "rest' ! (3 * j + 1) \<notin> {''S'', ''R'', ''I'', ''B''}"
        by simp_all
      then have "isl (properties_loop rest')"
        by (rule "3.IH" [OF dt r n])
      then show ?thesis
        by (auto simp: dt r n split: sum.splits)
    qed
  qed
qed simp_all

lemma properties_loop_bad_count:
  "3 * i + 2 < length fs \<Longrightarrow> py_int (fs ! (3 * i + 2)) = None \<Longrightarrow> isl (properties_loop fs)"
proof (induction fs arbitrary: i rule: properties_loop.induct)
  case (3 l t rest)
  show ?case
  proof (cases "properties_loop (l # t # rest)")
    case (Inl e)
    then show ?thesis by simp
  next
    case (Inr schema)
    then obtain dt c rest' n where dt: "from_string t = Inr dt" and r: "rest = c # rest'"
      and n: "int_of_str c = Inr n"
      by (auto split: sum.splits list.splits)
    show ?thesis
    proof (cases i)
      case 0
      with "3.prems" r have "py_int c = None"
        by simp
      with n show ?thesis
        by (simp add: int_of_str_def)
    next
      case (Suc j)
      from "3.prems" Suc r have "3 * j + 2 < length rest'"
        and "py_int (rest' ! (3 * j + 2)) = None"
        by simp_all
      then have "isl (properties_loop rest')"
        by (rule "3.IH" [OF dt r n])
      then show ?thesis
        by (auto simp: dt r n split: sum.splits)
    qed
  qed
qed simp_all

lemma parse_extended_comment_properties_error:
  "map_of (build_kv_dict (findall comment)) ''Properties'' = Some ps \<Longrightarrow>
   isl (parse_properties ps) \<Longrightarrow> isl (parse_extended_comment pyfloat comment)"
  by (auto simp: parse_extended_comment_def dict_get_def Let_def split: option.splits sum.splits)

lemma parse_extended_comment_after_lattice:
  "map_of (build_kv_dict (findall comment)) ''Lattice'' = Some s \<Longrightarrow>
   map pyfloat (split_ws s) = map Some rs \<Longrightarrow>
   parse_extended_comment pyfloat comment =
     (case dict_get (build_kv_dict (findall comment)) ''Properties'' of
        Inl e \<Rightarrow> Inl e
      | Inr ps \<Rightarrow>
          (case parse_properties ps of
             Inl e \<Rightarrow> Inl e
           | Inr schema \<Rightarrow>
               Inr \<lparr>Lattice = zip3 rs, Properties = schema,
                    others =
                      map (\<lambda>(k, v). (k, infer_value pyfloat v))
                        (filter (\<lambda>(k, v). k \<noteq> ''Lattice'' \<and> k \<noteq> ''Properties'')
                           (build_kv_dict (findall comment)))\<rparr>))"
  by (simp add: parse_extended_comment_def Let_def dict_get_def parse_lattice_def map_raise_float)

text \<open>
  C6, as the code has it. The claim: a \<open>Properties\<close> value whose colon-split length is no
  multiple of 3, or with a type code outside \<open>S\<close>, \<open>R\<close>, \<open>I\<close>, \<open>B\<close>, or with a count that
  is no positive integer, or a missing \<open>Properties\<close> key, is an error. In the source the
  comment parser returns an exception for the missing key and for the first three when
  the count is one that \<open>int\<close> rejects. When the \<open>Lattice\<close> value is there and \<open>float\<close>
  reads all its tokens, the exception is \<open>KeyError\<close> for the missing key and the
  \<open>ValueError\<close> or \<open>IndexError\<close> of \<open>parse_properties\<close> for the malformed value; otherwise
  the lattice raises first. The sign of a count is never looked at.
\<close>

theorem C6_malformed_properties:
  assumes "build_kv_dict (findall comment) = kv_dict"
  shows "(map_of kv_dict ''Properties'' = None \<longrightarrow>
            (\<exists>e. parse_extended_comment pyfloat comment = Inl e)
            \<and> (\<forall>s rs. map_of kv_dict ''Lattice'' = Some s
                    \<and> map pyfloat (split_ws s) = map Some rs \<longrightarrow>
                  parse_extended_comment pyfloat comment = Inl (KeyError ''Properties'')))
       \<and> (\<forall>ps fs.
            map_of kv_dict ''Properties'' = Some ps \<and> split_on (CHR '':'') ps = fs
            \<and> (length fs mod 3 \<noteq> 0
               \<or> (\<exists>i. 3 * i + 1 < length fs \<and> fs ! (3 * i + 1) \<notin> {''S'', ''R'', ''I'', ''B''})
               \<or> (\<exists>i. 3 * i + 2 < length fs \<and> py_int (fs ! (3 * i + 2)) = None)) \<longrightarrow>
            parse_properties ps \<in> {Inl ValueError, Inl IndexError}
            \<and> (\<exists>e. parse_extended_comment pyfloat comment = Inl e)
            \<and> (\<forall>s rs. map_of kv_dict ''Lattice'' = Some s
                    \<and> map pyfloat (split_ws s) = map Some rs \<longrightarrow>
                  parse_extended_comment pyfloat comment \<in> {Inl ValueError, Inl IndexError}))"
proof (rule conjI; intro allI impI)
  assume none: "map_of kv_dict ''Properties'' = None"
  then have "isl (parse_extended_comment pyfloat comment)"
    by (auto simp: parse_extended_comment_def assms dict_get_def Let_def
        split: option.splits sum.splits)
  then have some: "\<exists>e. parse_extended_comment pyfloat comment = Inl e"
    by (auto simp: isl_def)
  have "parse_extended_comment pyfloat comment = Inl (KeyError ''Properties'')"
    if "map_of kv_dict ''Lattice'' = Some s \<and> map pyfloat (split_ws s) = map Some rs" for s rs
    using that none assms
    by (simp add: parse_extended_comment_after_lattice [of comment s pyfloat rs] dict_get_def)
  with some show "(\<exists>e. parse_extended_comment pyfloat comment = Inl e)
            \<and> (\<forall>s rs. map_of kv_dict ''Lattice'' = Some s
                    \<and> map pyfloat (split_ws s) = map Some rs \<longrightarrow>
                  parse_extended_comment pyfloat comment = Inl (KeyError ''Properties''))"
    by blast
next
  fix ps fs
  assume a: "map_of kv_dict ''Properties'' = Some ps \<and> split_on (CHR '':'') ps = fs
            \<and> (length fs mod 3 \<noteq> 0
               \<or> (\<exists>i. 3 * i + 1 < length fs \<and> fs ! (3 * i + 1) \<notin> {''S'', ''R'', ''I'', ''B''})
               \<or> (\<exists>i. 3 * i + 2 < length fs \<and> py_int (fs ! (3 * i + 2)) = None))"
  then have "isl (properties_loop fs)"
    using properties_loop_stride [of fs] properties_loop_bad_code [of _ fs]
      properties_loop_bad_count [of _ fs] by blast
  with a have bad: "isl (parse_properties ps)"
    by (simp add: parse_properties_def)
  then obtain e where e: "parse_properties ps = Inl e"
    by (auto simp: isl_def)
  from e [unfolded parse_properties_def] have "e = ValueError \<or> e = IndexError"
    by (rule properties_loop_errors)
  with e have err: "parse_properties ps \<in> {Inl ValueError, Inl IndexError}"
    by auto
  from a bad have "isl (parse_extended_comment pyfloat comment)"
    using assms by (intro parse_extended_comment_properties_error [of _ ps]) simp_all
  then have some: "\<exists>e. parse_extended_comment pyfloat comment = Inl e"
    by (auto simp: isl_def)
  have "parse_extended_comment pyfloat comment \<in> {Inl ValueError, Inl IndexError}"
    if "map_of kv_dict ''Lattice'' = Some s \<and> map pyfloat (split_ws s) = map Some rs" for s rs
  proof -
    from that a assms have "parse_extended_comment pyfloat comment = Inl e"
      by (simp add: parse_extended_comment_after_lattice [of comment s pyfloat rs] dict_get_def e)
    with e err show ?thesis
      by simp
  qed
  with err some show "parse_properties ps \<in> {Inl ValueError, Inl IndexError}
            \<and> (\<exists>e. parse_extended_comment pyfloat comment = Inl e)
            \<and> (\<forall>s rs. map_of kv_dict ''Lattice'' = Some s
                    \<and> map pyfloat (split_ws s) = map Some rs \<longrightarrow>
                  parse_extended_comment pyfloat comment \<in> {Inl ValueError, Inl IndexError})"
    by blast
qed

text \<open>
  C6 fails as stated: the counts \<open>0\<close> and \<open>-2\<close> parse as integers and are stored in the
  schema without an error.
\<close>

theorem C6_count_sign_unchecked:
  "parse_extended_comment float_of_int_literal
     ''Lattice=\"1 0 0 0 1 0 0 0 1\" Properties=species:S:0'' =
     Inr \<lparr>Lattice = [(1, 0, 0), (0, 1, 0), (0, 0, 1)],
          Properties = [\<lparr>label = ''species'', datatype_of = STRING, column_count = 0\<rparr>],
          others = []\<rparr>
   \<and> parse_extended_comment float_of_int_literal
     ''Lattice=\"1 0 0 0 1 0 0 0 1\" Properties=species:S:-2'' =
     Inr \<lparr>Lattice = [(1, 0, 0), (0, 1, 0), (0, 0, 1)],
          Properties = [\<lparr>label = ''species'', datatype_of = STRING, column_count = - 2\<rparr>],
          others = []\<rparr>"
  by code_simp

theorem C6_malformed_properties_witness:
  "map_of (build_kv_dict (findall ''Lattice=\"1 0 0 0 1 0 0 0 1\" Step=3'')) ''Properties'' = None
   \<and> map_of (build_kv_dict (findall ''Lattice=\"1 0 0 0 1 0 0 0 1\" Step=3'')) ''Lattice'' =
       Some ''1 0 0 0 1 0 0 0 1''
   \<and> map float_of_int_literal (split_ws ''1 0 0 0 1 0 0 0 1'') =
       map Some [1, 0, 0, 0, 1, 0, 0, 0, 1]
   \<and> parse_extended_comment float_of_int_literal ''Lattice=\"1 0 0 0 1 0 0 0 1\" Step=3'' =
       Inl (KeyError ''Properties'')
   \<and> map_of (build_kv_dict (findall ''Lattice=\"1 x 0\" Step=3'')) ''Properties'' = None
   \<and> (\<exists>e. parse_extended_comment float_of_int_literal ''Lattice=\"1 x 0\" Step=3'' = Inl e)
   \<and> parse_extended_comment float_of_int_literal ''Lattice=\"1 x 0\" Step=3'' = Inl ValueError
   \<and> map_of (build_kv_dict (findall ''Lattice=\"1 0 0 0 1 0 0 0 1\" Properties=species:X:1''))
         ''Properties'' = Some ''species:X:1''
   \<and> map_of (build_kv_dict (findall ''Lattice=\"1 0 0 0 1 0 0 0 1\" Properties=species:X:1''))
         ''Lattice'' = Some ''1 0 0 0 1 0 0 0 1''
   \<and> split_on (CHR '':'') ''species:X:1'' = [''species'', ''X'', ''1'']
   \<and> [''species'', ''X'', ''1''] ! (3 * 0 + 1) \<notin> {''S'', ''R'', ''I'', ''B''}
   \<and> parse_properties ''species:X:1'' \<in> {Inl ValueError, Inl IndexError}
   \<and> parse_extended_comment float_of_int_literal
         ''Lattice=\"1 0 0 0 1 0 0 0 1\" Properties=species:X:1'' \<in> {Inl ValueError, Inl IndexError}
   \<and> parse_extended_comment float_of_int_literal
         ''Lattice=\"1 0 0 0 1 0 0 0 1\" Properties=species:X:1'' = Inl ValueError
   \<and> map_of (build_kv_dict (findall ''Lattice=\"1 0 0 0 1 0 0 0 1\" Properties=species:S:1:pos''))
         ''Properties'' = Some ''species:S:1:pos''
   \<and> map_of (build_kv_dict (findall ''Lattice=\"1 0 0 0 1 0 0 0 1\" Properties=species:S:1:pos''))
         ''Lattice'' = Some ''1 0 0 0 1 0 0 0 1''
   \<and> split_on (CHR '':'') ''species:S:1:pos'' = [''species'', ''S'', ''1'', ''pos'']
   \<and> length [''species'', ''S'', ''1'', ''pos''] mod 3 \<noteq> 0
   \<and> parse_properties ''species:S:1:pos'' \<in> {Inl ValueError, Inl IndexError}
   \<and> parse_extended_comment float_of_int_literal
         ''Lattice=\"1 0 0 0 1 0 0 0 1\" Properties=species:S:1:pos'' \<in> {Inl ValueError, Inl IndexError}
   \<and> parse_extended_comment float_of_int_literal
         ''Lattice=\"1 0 0 0 1 0 0 0 1\" Properties=species:S:1:pos'' = Inl IndexError
   \<and> map_of (build_kv_dict (findall ''Lattice=\"1 0 0 0 1 0 0 0 1\" Properties=species:S:one''))
         ''Properties'' = Some ''species:S:one''
   \<and> map_of (build_kv_dict (findall ''Lattice=\"1 0 0 0 1 0 0 0 1\" Properties=species:S:one''))
         ''Lattice'' = Some ''1 0 0 0 1 0 0 0 1''
   \<and> split_on (CHR '':'') ''species:S:one'' = [''species'', ''S'', ''one'']
   \<and> py_int ([''species'', ''S'', ''one''] ! (3 * 0 + 2)) = None
   \<and> parse_properties ''species:S:one'' \<in> {Inl ValueError, Inl IndexError}
   \<and> parse_extended_comment float_of_int_literal
         ''Lattice=\"1 0 0 0 1 0 0 0 1\" Properties=species:S:one'' \<in> {Inl ValueError, Inl IndexError}
   \<and> parse_extended_comment float_of_int_literal
         ''Lattice=\"1 0 0 0 1 0 0 0 1\" Properties=species:S:one'' = Inl ValueError"
proof -
  let ?c0 = "''Lattice=\"1 x 0\" Step=3''"
  let ?c1 = "''Lattice=\"1 0 0 0 1 0 0 0 1\" Step=3''"
  let ?c2 = "''Lattice=\"1 0 0 0 1 0 0 0 1\" Properties=species:X:1''"
  let ?c3 = "''Lattice=\"1 0 0 0 1 0 0 0 1\" Properties=species:S:1:pos''"
  let ?c4 = "''Lattice=\"1 0 0 0 1 0 0 0 1\" Properties=species:S:one''"
  note inst0 = C6_malformed_properties [OF refl, of ?c0 float_of_int_literal]
  note inst1 = C6_malformed_properties [OF refl, of ?c1 float_of_int_literal]
  note inst2 = C6_malformed_properties [OF refl, of ?c2 float_of_int_literal]
  note inst3 = C6_malformed_properties [OF refl, of ?c3 float_of_int_literal]
  note inst4 = C6_malformed_properties [OF refl, of ?c4 float_of_int_literal]
  have fl: "map float_of_int_literal (split_ws ''1 0 0 0 1 0 0 0 1'') =
       map Some [1, 0, 0, 0, 1, 0, 0, 0, 1]"
    by code_simp
  have a1: "map_of (build_kv_dict (findall ?c1)) ''Properties'' = None"
    by code_simp
  have a2: "map_of (build_kv_dict (findall ?c1)) ''Lattice'' = Some ''1 0 0 0 1 0 0 0 1''"
    by code_simp
  from inst1 a1 a2 fl
  have a3: "parse_extended_comment float_of_int_literal ?c1 = Inl (KeyError ''Properties'')"
    by blast
  have z1: "map_of (build_kv_dict (findall ?c0)) ''Properties'' = None"
    by code_simp
  from inst0 z1 have z2: "\<exists>e. parse_extended_comment float_of_int_literal ?c0 = Inl e"
    by blast
  have z3: "parse_extended_comment float_of_int_literal ?c0 = Inl ValueError"
    by code_simp
  have b1: "map_of (build_kv_dict (findall ?c2)) ''Properties'' = Some ''species:X:1''"
    by code_simp
  have b1': "map_of (build_kv_dict (findall ?c2)) ''Lattice'' = Some ''1 0 0 0 1 0 0 0 1''"
    by code_simp
  have b2: "split_on (CHR '':'') ''species:X:1'' = [''species'', ''X'', ''1'']"
    by code_simp
  have b3: "[''species'', ''X'', ''1''] ! (3 * 0 + 1) \<notin> {''S'', ''R'', ''I'', ''B''}"
    by simp
  have b3': "3 * 0 + 1 < length [''species'', ''X'', ''1'']"
    by simp
  from inst2 b1 b2 b3 b3' have b45: "parse_properties ''species:X:1'' \<in> {Inl ValueError, Inl IndexError}
      \<and> (\<exists>e. parse_extended_comment float_of_int_literal ?c2 = Inl e)
      \<and> (\<forall>s rs. map_of (build_kv_dict (findall ?c2)) ''Lattice'' = Some s
              \<and> map float_of_int_literal (split_ws s) = map Some rs \<longrightarrow>
            parse_extended_comment float_of_int_literal ?c2 \<in> {Inl ValueError, Inl IndexError})"
    by blast
  with b1' fl have b5: "parse_extended_comment float_of_int_literal ?c2 \<in>
      {Inl ValueError, Inl IndexError}"
    by blast
  have b6: "parse_extended_comment float_of_int_literal ?c2 = Inl ValueError"
    by code_simp
  have c1: "map_of (build_kv_dict (findall ?c3)) ''Properties'' = Some ''species:S:1:pos''"
    by code_simp
  have c1': "map_of (build_kv_dict (findall ?c3)) ''Lattice'' = Some ''1 0 0 0 1 0 0 0 1''"
    by code_simp
  have c2: "split_on (CHR '':'') ''species:S:1:pos'' = [''species'', ''S'', ''1'', ''pos'']"
    by code_simp
  have c3: "length [''species'', ''S'', ''1'', ''pos''] mod 3 \<noteq> 0"
    by simp
  from inst3 c1 c2 c3 have c45: "parse_properties ''species:S:1:pos'' \<in> {Inl ValueError, Inl IndexError}
      \<and> (\<exists>e. parse_extended_comment float_of_int_literal ?c3 = Inl e)
      \<and> (\<forall>s rs. map_of (build_kv_dict (findall ?c3)) ''Lattice'' = Some s
              \<and> map float_of_int_literal (split_ws s) = map Some rs \<longrightarrow>
            parse_extended_comment float_of_int_literal ?c3 \<in> {Inl ValueError, Inl IndexError})"
    by blast
  with c1' fl have c5: "parse_extended_comment float_of_int_literal ?c3 \<in>
      {Inl ValueError, Inl IndexError}"
    by blast
  have c6: "parse_extended_comment float_of_int_literal ?c3 = Inl IndexError"
    by code_simp
  have d1: "map_of (build_kv_dict (findall ?c4)) ''Properties'' = Some ''species:S:one''"
    by code_simp
  have d1': "map_of (build_kv_dict (findall ?c4)) ''Lattice'' = Some ''1 0 0 0 1 0 0 0 1''"
    by code_simp
  have d2: "split_on (CHR '':'') ''species:S:one'' = [''species'', ''S'', ''one'']"
    by code_simp
  have d3: "py_int ([''species'', ''S'', ''one''] ! (3 * 0 + 2)) = None"
    by code_simp
  have d3': "3 * 0 + 2 < length [''species'', ''S'', ''one'']"
    by simp
  from inst4 d1 d2 d3 d3' have d45: "parse_properties ''species:S:one'' \<in> {Inl ValueError, Inl IndexError}
      \<and> (\<exists>e. parse_extended_comment float_of_int_literal ?c4 = Inl e)
      \<and> (\<forall>s rs. map_of (build_kv_dict (findall ?c4)) ''Lattice'' = Some s
              \<and> map float_of_int_literal (split_ws s) = map Some rs \<longrightarrow>
            parse_extended_comment float_of_int_literal ?c4 \<in> {Inl ValueError, Inl IndexError})"
    by blast
  with d1' fl have d5: "parse_extended_comment float_of_int_literal ?c4 \<in>
      {Inl ValueError, Inl IndexError}"
    by blast
  have d6: "parse_extended_comment float_of_int_literal ?c4 = Inl ValueError"
    by code_simp
  show ?thesis
    by (intro conjI) (rule a1, rule a2, rule fl, rule a3, rule z1, rule z2, rule z3,
        rule b1, rule b1', rule b2, rule b3, rule b45 [THEN conjunct1], rule b5, rule b6,
        rule c1, rule c1', rule c2, rule c3, rule c45 [THEN conjunct1], rule c5, rule c6,
        rule d1, rule d1', rule d2, rule d3, rule d45 [THEN conjunct1], rule d5, rule d6)
qed

subsection \<open>The row loop\<close>

lemma read_rows_prefix:
  "fst (read_rows pyfloat props expected i idx d0 (take i rows)) = Inr d \<Longrightarrow> i \<le> length rows \<Longrightarrow>
   read_rows pyfloat props expected (i + m) idx d0 rows =
   read_rows pyfloat props expected m (idx + i) d (drop i rows)"
proof (induction i arbitrary: idx d0 rows)
  case 0
  then show ?case by simp
next
  case (Suc i)
  from Suc.prems(2) obtain r rs where rows: "rows = r # rs"
    by (cases rows) auto
  from Suc.prems(1) have count: "int (length (split_ws r)) = expected"
    by (auto simp: rows Let_def split: if_splits)
  with Suc.prems(1) obtain d1 where d1: "decode_row pyfloat props (split_ws r) 0 d0 = Inr d1"
    and rest: "fst (read_rows pyfloat props expected i (Suc idx) d1 (take i rs)) = Inr d"
    by (auto simp: rows Let_def split: sum.splits)
  from Suc.prems(2) have "i \<le> length rs"
    by (simp add: rows)
  with rest have "read_rows pyfloat props expected (i + m) (Suc idx) d1 rs =
      read_rows pyfloat props expected m (Suc idx + i) d (drop i rs)"
    by (rule Suc.IH)
  with count d1 show ?case
    by (simp add: rows)
qed

lemma read_rows_bad_row:
  "i < k \<Longrightarrow> i < length rows \<Longrightarrow> int (length (split_ws (rows ! i))) \<noteq> expected \<Longrightarrow>
   isl (fst (read_rows pyfloat props expected k idx d0 rows))"
proof (induction k arbitrary: i idx d0 rows)
  case 0
  then show ?case by simp
next
  case (Suc k)
  from Suc.prems(2) obtain r rs where rows: "rows = r # rs"
    by (cases rows) auto
  show ?case
  proof (cases i)
    case 0
    with Suc.prems(3) show ?thesis
      by (simp add: rows)
  next
    case (Suc j)
    with Suc.prems have "j < k" and "j < length rs"
      and "int (length (split_ws (rs ! j))) \<noteq> expected"
      by (simp_all add: rows)
    then have "isl (fst (read_rows pyfloat props expected k idx' d' rs))" for idx' d'
      by (rule Suc.IH)
    then show ?thesis
      by (simp add: rows Let_def split: sum.splits)
  qed
qed

text \<open>
  C4. Let the header of a frame parse, with atom count \<open>n\<close> and \<open>expected\<close> the sum of the
  schema's column counts, and let row \<open>i\<close> (counted from 0, below \<open>n\<close>) split into a number
  of tokens other than \<open>expected\<close>. Then \<open>read_frame\<close> returns an exception and no frame.
  When the rows before row \<open>i\<close> were read without an exception, the exception is the
  \<open>AssertionError\<close> that carries \<open>expected\<close>, the number of tokens found and \<open>i + 3\<close>, the
  1-based index of the row plus the two header lines, and it is raised at once: the lines
  after row \<open>i\<close> are still in the file.
\<close>

theorem C4_malformed_row:
  assumes "py_int count_line = Some n"
    and "parse_extended_comment pyfloat comment = Inr sc"
    and "expected = sum_list (map column_count (Properties sc))"
    and "i < nat n" and "i < length rows"
    and "int (length (split_ws (rows ! i))) \<noteq> expected"
  shows "(\<exists>e. fst (read_frame pyfloat (count_line # comment # rows)) = Inl e)
       \<and> ((\<exists>d. fst (read_rows pyfloat (Properties sc) expected i 0 [] (take i rows)) = Inr d) \<longrightarrow>
            read_frame pyfloat (count_line # comment # rows) =
              (Inl (AssertionError expected (length (split_ws (rows ! i))) (i + 3)),
               drop (Suc i) rows))"
proof
  have "isl (fst (read_rows pyfloat (Properties sc) expected (nat n) 0 [] rows))"
    using assms(4-6) by (rule read_rows_bad_row)
  then have "isl (fst (read_frame pyfloat (count_line # comment # rows)))"
    using assms(1-3)
    by (auto simp: read_frame_def int_of_str_def isl_def split: prod.splits sum.splits)
  then show "\<exists>e. fst (read_frame pyfloat (count_line # comment # rows)) = Inl e"
    by (auto simp: isl_def)
next
  show "(\<exists>d. fst (read_rows pyfloat (Properties sc) expected i 0 [] (take i rows)) = Inr d) \<longrightarrow>
            read_frame pyfloat (count_line # comment # rows) =
              (Inl (AssertionError expected (length (split_ws (rows ! i))) (i + 3)),
               drop (Suc i) rows)"
  proof
    assume "\<exists>d. fst (read_rows pyfloat (Properties sc) expected i 0 [] (take i rows)) = Inr d"
    then obtain d where d: "fst (read_rows pyfloat (Properties sc) expected i 0 [] (take i rows)) = Inr d"
      by blast
    from assms(4) obtain m where m: "nat n = i + Suc m"
      by (metis less_imp_Suc_add add_Suc_right)
    from assms(5) have le: "i \<le> length rows"
      by simp
    from assms(5) have dr: "drop i rows = rows ! i # drop (Suc i) rows"
      by (simp add: Cons_nth_drop_Suc)
    have "read_rows pyfloat (Properties sc) expected (nat n) 0 [] rows =
        read_rows pyfloat (Properties sc) expected (Suc m) (0 + i) d (drop i rows)"
      unfolding m using d le by (rule read_rows_prefix)
    also have "\<dots> = (Inl (AssertionError expected (length (split_ws (rows ! i))) (i + 3)),
        drop (Suc i) rows)"
      using assms(6) by (simp add: dr)
    finally show "read_frame pyfloat (count_line # comment # rows) =
              (Inl (AssertionError expected (length (split_ws (rows ! i))) (i + 3)),
               drop (Suc i) rows)"
      using assms(1-3) by (simp add: read_frame_def int_of_str_def)
  qed
qed

theorem C4_malformed_row_witness:
  "py_int ''2\<newline>'' = Some 2
   \<and> parse_extended_comment float_of_int_literal
        ''Lattice=\"1 0 0 0 1 0 0 0 1\" Properties=species:S:1:pos:R:3\<newline>'' =
       Inr \<lparr>Lattice = [(1, 0, 0), (0, 1, 0), (0, 0, 1)],
            Properties = [\<lparr>label = ''species'', datatype_of = STRING, column_count = 1\<rparr>,
                          \<lparr>label = ''pos'', datatype_of = REAL, column_count = 3\<rparr>],
            others = []\<rparr>
   \<and> fst (read_rows float_of_int_literal
          [\<lparr>label = ''species'', datatype_of = STRING, column_count = 1\<rparr>,
           \<lparr>label = ''pos'', datatype_of = REAL, column_count = 3\<rparr>]
          4 1 0 [] (take 1 [''O 0 0 0\<newline>'', ''H 0 0\<newline>''])) =
       Inr [(''species'', [Single (PyStr ''O'')]),
            (''pos'', [Multi [PyFloat 0, PyFloat 0, PyFloat 0]])]
   \<and> int (length (split_ws ([''O 0 0 0\<newline>'', ''H 0 0\<newline>''] ! 1))) \<noteq> 4
   \<and> read_frame float_of_int_literal
        [''2\<newline>'', ''Lattice=\"1 0 0 0 1 0 0 0 1\" Properties=species:S:1:pos:R:3\<newline>'',
         ''O 0 0 0\<newline>'', ''H 0 0\<newline>''] =
       (Inl (AssertionError 4 3 4), [])"
proof -
  let ?comment = "''Lattice=\"1 0 0 0 1 0 0 0 1\" Properties=species:S:1:pos:R:3\<newline>''"
  let ?props = "[\<lparr>label = ''species'', datatype_of = STRING, column_count = 1\<rparr>,
                 \<lparr>label = ''pos'', datatype_of = REAL, column_count = 3\<rparr>]"
  let ?sc = "\<lparr>Lattice = [(1, 0, 0), (0, 1, 0), (0, 0, 1 :: rat)], Properties = ?props, others = []\<rparr>"
  let ?rows = "[''O 0 0 0\<newline>'', ''H 0 0\<newline>'']"
  have h1: "py_int ''2\<newline>'' = Some 2"
    by code_simp
  have h2: "parse_extended_comment float_of_int_literal ?comment = Inr ?sc"
    by code_simp
  have h3: "4 = sum_list (map column_count (Properties ?sc))"
    by simp
  have h4: "1 < nat 2" and h5: "1 < length ?rows"
    by simp_all
  have len: "length (split_ws ''H 0 0\<newline>'') = 3"
    by code_simp
  then have h6: "int (length (split_ws (?rows ! 1))) \<noteq> 4"
    by simp
  have h7: "fst (read_rows float_of_int_literal ?props 4 1 0 [] (take 1 ?rows)) =
       Inr [(''species'', [Single (PyStr ''O'')]),
            (''pos'', [Multi [PyFloat 0, PyFloat 0, PyFloat 0]])]"
    by code_simp
  then have h7': "\<exists>d. fst (read_rows float_of_int_literal (Properties ?sc) 4 1 0 []
      (take 1 ?rows)) = Inr d"
    by simp
  from C4_malformed_row [OF h1 h2 h3 h4 h5 h6] h7'
  have "read_frame float_of_int_literal (''2\<newline>'' # ?comment # ?rows) =
      (Inl (AssertionError 4 (length (split_ws (?rows ! 1))) (1 + 3)), drop (Suc 1) ?rows)"
    by blast
  then have c: "read_frame float_of_int_literal (''2\<newline>'' # ?comment # ?rows) =
      (Inl (AssertionError 4 3 4), [])"
    by (simp add: len)
  show ?thesis
    by (intro conjI) (rule h1, rule h2, rule h7, rule h6, rule c)
qed

subsection \<open>The end of the input\<close>

text \<open>
  C2, as the code has it. The claim: the end of the input at the atom-count line ends the
  sequence, and the end of the input within a frame, at the comment line or at a row, is
  an error of its own. In the source every \<open>next(self.file)\<close> raises \<open>StopIteration\<close> at
  the end of the input and nothing catches it, so \<open>reader_next\<close> returns \<open>StopIteration\<close>,
  the end of the sequence, in all three places: with no line left, with the atom-count
  line only, and with fewer rows than the atom count (the rows at hand being read without
  an exception). An atom-count line that \<open>int\<close> rejects raises \<open>ValueError\<close>; among them
  is a line that ends in one of the separators 0x1C to 0x1F, which \<open>int\<close> does not skip.
\<close>

theorem C2_end_of_input_is_stop_iteration:
  "fst (reader_next pyfloat []) = Inl StopIteration
   \<and> (\<forall>count_line n. py_int count_line = Some n \<longrightarrow>
         fst (reader_next pyfloat [count_line]) = Inl StopIteration)
   \<and> (\<forall>count_line n comment sc rows d.
         py_int count_line = Some n \<and> parse_extended_comment pyfloat comment = Inr sc
         \<and> length rows < nat n
         \<and> fst (read_rows pyfloat (Properties sc) (sum_list (map column_count (Properties sc)))
                  (length rows) 0 [] rows) = Inr d \<longrightarrow>
         fst (reader_next pyfloat (count_line # comment # rows)) = Inl StopIteration)
   \<and> (\<forall>count_line rest. py_int count_line = None \<longrightarrow>
         fst (reader_next pyfloat (count_line # rest)) = Inl ValueError)"
proof (intro conjI allI impI)
  show "fst (reader_next pyfloat []) = Inl StopIteration"
    by (simp add: reader_next_def read_frame_def)
next
  fix count_line n
  assume "py_int count_line = Some n"
  then show "fst (reader_next pyfloat [count_line]) = Inl StopIteration"
    by (simp add: reader_next_def read_frame_def int_of_str_def)
next
  fix count_line rest
  assume "py_int count_line = None"
  then show "fst (reader_next pyfloat (count_line # rest)) = Inl ValueError"
    by (simp add: reader_next_def read_frame_def int_of_str_def)
next
  fix count_line n comment rows d and sc :: "'a structured_comment"
  let ?expected = "sum_list (map column_count (Properties sc))"
  assume a: "py_int count_line = Some n \<and> parse_extended_comment pyfloat comment = Inr sc
         \<and> length rows < nat n
         \<and> fst (read_rows pyfloat (Properties sc) ?expected (length rows) 0 [] rows) = Inr d"
  then obtain m where m: "nat n = length rows + Suc m"
    by (metis less_imp_Suc_add add_Suc_right)
  from a have "fst (read_rows pyfloat (Properties sc) ?expected (length rows) 0 []
      (take (length rows) rows)) = Inr d"
    by simp
  then have "read_rows pyfloat (Properties sc) ?expected (length rows + Suc m) 0 [] rows =
      read_rows pyfloat (Properties sc) ?expected (Suc m) (0 + length rows) d
        (drop (length rows) rows)"
    by (rule read_rows_prefix) simp
  then have "read_rows pyfloat (Properties sc) ?expected (nat n) 0 [] rows =
      (Inl StopIteration, [])"
    by (simp add: m)
  with a show "fst (reader_next pyfloat (count_line # comment # rows)) = Inl StopIteration"
    by (simp add: reader_next_def read_frame_def int_of_str_def)
qed

theorem C2_end_of_input_is_stop_iteration_witness:
  "py_int ''2\<newline>'' = Some 2
   \<and> fst (reader_next float_of_int_literal [''2\<newline>'']) = Inl StopIteration
   \<and> parse_extended_comment float_of_int_literal
        ''Lattice=\"1 0 0 0 1 0 0 0 1\" Properties=species:S:1:pos:R:3\<newline>'' =
       Inr \<lparr>Lattice = [(1, 0, 0), (0, 1, 0), (0, 0, 1)],
            Properties = [\<lparr>label = ''species'', datatype_of = STRING, column_count = 1\<rparr>,
                          \<lparr>label = ''pos'', datatype_of = REAL, column_count = 3\<rparr>],
            others = []\<rparr>
   \<and> length [''O 0 0 0\<newline>''] < nat 2
   \<and> fst (read_rows float_of_int_literal
          [\<lparr>label = ''species'', datatype_of = STRING, column_count = 1\<rparr>,
           \<lparr>label = ''pos'', datatype_of = REAL, column_count = 3\<rparr>]
          4 1 0 [] [''O 0 0 0\<newline>'']) =
       Inr [(''species'', [Single (PyStr ''O'')]),
            (''pos'', [Multi [PyFloat 0, PyFloat 0, PyFloat 0]])]
   \<and> fst (reader_next float_of_int_literal
        [''2\<newline>'', ''Lattice=\"1 0 0 0 1 0 0 0 1\" Properties=species:S:1:pos:R:3\<newline>'',
         ''O 0 0 0\<newline>'']) = Inl StopIteration
   \<and> py_int ''two\<newline>'' = None
   \<and> fst (reader_next float_of_int_literal [''two\<newline>'', ''x'']) = Inl ValueError
   \<and> py_int [CHR ''2'', CHR 0x1C, newline] = None
   \<and> fst (reader_next float_of_int_literal [[CHR ''2'', CHR 0x1C, newline], ''x'']) =
       Inl ValueError"
proof -
  let ?comment = "''Lattice=\"1 0 0 0 1 0 0 0 1\" Properties=species:S:1:pos:R:3\<newline>''"
  let ?props = "[\<lparr>label = ''species'', datatype_of = STRING, column_count = 1\<rparr>,
                 \<lparr>label = ''pos'', datatype_of = REAL, column_count = 3\<rparr>]"
  let ?sc = "\<lparr>Lattice = [(1, 0, 0), (0, 1, 0), (0, 0, 1 :: rat)], Properties = ?props, others = []\<rparr>"
  let ?rows = "[''O 0 0 0\<newline>'']"
  note inst = C2_end_of_input_is_stop_iteration [of float_of_int_literal]
  have h1: "py_int ''2\<newline>'' = Some 2"
    by code_simp
  from inst h1 have c1: "fst (reader_next float_of_int_literal [''2\<newline>'']) = Inl StopIteration"
    by blast
  have h2: "parse_extended_comment float_of_int_literal ?comment = Inr ?sc"
    by code_simp
  have h3: "length ?rows < nat 2"
    by simp
  have h4: "fst (read_rows float_of_int_literal ?props 4 1 0 [] ?rows) =
       Inr [(''species'', [Single (PyStr ''O'')]),
            (''pos'', [Multi [PyFloat 0, PyFloat 0, PyFloat 0]])]"
    by code_simp
  then have h4': "fst (read_rows float_of_int_literal (Properties ?sc)
      (sum_list (map column_count (Properties ?sc))) (length ?rows) 0 [] ?rows) =
       Inr [(''species'', [Single (PyStr ''O'')]),
            (''pos'', [Multi [PyFloat 0, PyFloat 0, PyFloat 0]])]"
    by simp
  from inst h1 h2 h3 h4'
  have c2: "fst (reader_next float_of_int_literal (''2\<newline>'' # ?comment # ?rows)) =
      Inl StopIteration"
    by blast
  have h5: "py_int ''two\<newline>'' = None"
    by code_simp
  from inst h5 have c3: "fst (reader_next float_of_int_literal [''two\<newline>'', ''x'']) =
      Inl ValueError"
    by blast
  have h6: "py_int [CHR ''2'', CHR 0x1C, newline] = None"
    by code_simp
  from inst h6
  have c4: "fst (reader_next float_of_int_literal [[CHR ''2'', CHR 0x1C, newline], ''x'']) =
      Inl ValueError"
    by blast
  show ?thesis
    by (intro conjI) (rule h1, rule c1, rule h2, rule h3, rule h4, rule c2, rule h5, rule c3,
        rule h6, rule c4)
qed

text \<open>
  C2 fails as stated: a frame that announces two atoms and holds one row, and a frame cut
  after its atom-count line, give the same \<open>StopIteration\<close> as the empty input.
\<close>

theorem C2_truncated_frame_ends_like_end_of_file:
  "fst (reader_next float_of_int_literal
        [''2\<newline>'', ''Lattice=\"1 0 0 0 1 0 0 0 1\" Properties=species:S:1:pos:R:3\<newline>'',
         ''O 0 0 0\<newline>'']) = Inl StopIteration
   \<and> fst (reader_next float_of_int_literal [''2\<newline>'']) = Inl StopIteration
   \<and> fst (reader_next float_of_int_literal []) = Inl StopIteration"
  by code_simp

subsection \<open>The shape of the columns\<close>

lemma map_of_dict_append:
  "map_of (dict_append k x d) k' =
     (if k' = k then map_option (\<lambda>col. col @ [x]) (map_of d k) else map_of d k')"
  by (induction d) auto

lemma not_in_dict_keys: "k \<notin> set (dict_keys d) \<longleftrightarrow> map_of d k = None"
  by (simp add: dict_keys_def map_of_eq_None_iff)

lemma map_of_append_entry:
  "map_of (dict_append k e (if k \<notin> set (dict_keys d) then dict_set k [] d else d)) =
     (map_of d)(k \<mapsto> (case map_of d k of None \<Rightarrow> [] | Some col \<Rightarrow> col) @ [e])"
  by (auto simp: fun_eq_iff map_of_dict_append map_of_dict_set not_in_dict_keys
      split: option.splits)

lemma length_py_slice:
  "0 \<le> a \<Longrightarrow> 0 \<le> k \<Longrightarrow> a + k \<le> int (length xs) \<Longrightarrow> length (py_slice xs a (a + k)) = nat k"
proof -
  assume a: "0 \<le> a" and k: "0 \<le> k" and le: "a + k \<le> int (length xs)"
  then have lo: "slice_bound (length xs) a = nat a"
    and hi: "slice_bound (length xs) (a + k) = nat a + nat k"
    by (auto simp: slice_bound_def nat_add_distrib)
  from a k le have "nat a + nat k \<le> length xs"
    by linarith
  then show ?thesis
    by (simp add: py_slice_def lo hi)
qed

lemma length_map_raise: "map_raise f xs = Inr ys \<Longrightarrow> length ys = length xs"
  by (induction xs arbitrary: ys) (auto split: sum.splits)

lemma decode_row_entries:
  assumes "decode_row pyfloat ps split off d0 = Inr d1"
    and "distinct (map label ps)"
  shows "(\<forall>k. k \<notin> label ` set ps \<longrightarrow> map_of d1 k = map_of d0 k)
       \<and> (\<forall>p \<in> set ps. \<exists>e.
             map_of d1 (label p) =
               Some ((case map_of d0 (label p) of None \<Rightarrow> [] | Some col \<Rightarrow> col) @ [e])
             \<and> (0 \<le> off \<and> (\<forall>q \<in> set ps. 0 \<le> column_count q)
                  \<and> off + sum_list (map column_count ps) \<le> int (length split) \<longrightarrow>
                1 < column_count p \<longrightarrow>
                  (\<exists>vs. e = Multi vs \<and> int (length vs) = column_count p)))"
  using assms
proof (induction ps arbitrary: off d0)
  case Nil
  then show ?case by simp
next
  case (Cons p ps)
  let ?raw = "py_slice split off (off + column_count p)"
  let ?old = "case map_of d0 (label p) of None \<Rightarrow> [] | Some col \<Rightarrow> col"
  let ?fits = "0 \<le> off \<and> (\<forall>q \<in> set (p # ps). 0 \<le> column_count q)
      \<and> off + sum_list (map column_count (p # ps)) \<le> int (length split)"
  let ?fits' = "0 \<le> off + column_count p \<and> (\<forall>q \<in> set ps. 0 \<le> column_count q)
      \<and> off + column_count p + sum_list (map column_count ps) \<le> int (length split)"
  have fits': "?fits'" if "?fits"
    using that by (simp add: add.assoc)
  have len_raw: "length ?raw = nat (column_count p)" if "?fits"
  proof -
    from that have "0 \<le> sum_list (map column_count ps)"
      by (auto intro!: sum_list_nonneg)
    with that show ?thesis
      by (intro length_py_slice) auto
  qed
  have "\<exists>e d'. map_of d' = (map_of d0)(label p \<mapsto> ?old @ [e])
      \<and> decode_row pyfloat ps split (off + column_count p) d' = Inr d1
      \<and> (?fits \<longrightarrow> 1 < column_count p \<longrightarrow>
            (\<exists>vs. e = Multi vs \<and> int (length vs) = column_count p))"
  proof (cases "column_count p = 1")
    case True
    with Cons.prems(1) obtain v where
      "decode_row pyfloat ps split (off + column_count p)
         (dict_append (label p) (Single v)
            (if label p \<notin> set (dict_keys d0) then dict_set (label p) [] d0 else d0)) = Inr d1"
      by (auto simp: Let_def split: list.splits sum.splits if_splits)
    with True show ?thesis
      using map_of_append_entry [of "label p" "Single v" d0] by auto
  next
    case False
    with Cons.prems(1) obtain vs where
      vs: "map_raise (get_parser pyfloat (datatype_of p)) ?raw = Inr vs"
      and "decode_row pyfloat ps split (off + column_count p)
         (dict_append (label p) (Multi vs)
            (if label p \<notin> set (dict_keys d0) then dict_set (label p) [] d0 else d0)) = Inr d1"
      by (auto simp: Let_def split: sum.splits if_splits)
    moreover have "int (length vs) = column_count p" if "?fits"
      using vs len_raw [OF that] that by (simp add: length_map_raise)
    ultimately show ?thesis
      using map_of_append_entry [of "label p" "Multi vs" d0] by blast
  qed
  then obtain e d' where d': "map_of d' = (map_of d0)(label p \<mapsto> ?old @ [e])"
    and rest: "decode_row pyfloat ps split (off + column_count p) d' = Inr d1"
    and shape: "?fits \<longrightarrow> 1 < column_count p \<longrightarrow>
      (\<exists>vs. e = Multi vs \<and> int (length vs) = column_count p)"
    by blast
  have fresh: "label p \<notin> label ` set ps" and dist: "distinct (map label ps)"
    using Cons.prems(2) by auto
  have IH:
    "(\<forall>k. k \<notin> label ` set ps \<longrightarrow> map_of d1 k = map_of d' k)
     \<and> (\<forall>q \<in> set ps. \<exists>e.
           map_of d1 (label q) =
             Some ((case map_of d' (label q) of None \<Rightarrow> [] | Some col \<Rightarrow> col) @ [e])
           \<and> (?fits' \<longrightarrow> 1 < column_count q \<longrightarrow>
                (\<exists>vs. e = Multi vs \<and> int (length vs) = column_count q)))"
    using Cons.IH [OF rest dist] by blast
  show ?case
  proof (intro conjI allI impI ballI)
    fix k
    assume "k \<notin> label ` set (p # ps)"
    then have "k \<notin> label ` set ps" and "k \<noteq> label p"
      by auto
    with IH d' show "map_of d1 k = map_of d0 k"
      by simp
  next
    fix q
    assume q: "q \<in> set (p # ps)"
    show "\<exists>e. map_of d1 (label q) =
               Some ((case map_of d0 (label q) of None \<Rightarrow> [] | Some col \<Rightarrow> col) @ [e])
             \<and> (?fits \<longrightarrow> 1 < column_count q \<longrightarrow>
                  (\<exists>vs. e = Multi vs \<and> int (length vs) = column_count q))"
    proof (cases "q \<in> set ps")
      case True
      with fresh have "label q \<noteq> label p"
        by (metis imageI)
      then have "map_of d' (label q) = map_of d0 (label q)"
        by (simp add: d')
      with IH True fits' show ?thesis
        by (metis (no_types, lifting))
    next
      case False
      with q have qp: "q = p"
        by simp
      from IH fresh have "map_of d1 (label p) = map_of d' (label p)"
        by blast
      with d' shape show ?thesis
        by (auto simp: qp)
    qed
  qed
qed

lemma read_rows_entries:
  assumes "read_rows pyfloat props expected n idx d0 ls = (Inr d1, rest)"
    and "expected = sum_list (map column_count props)"
    and "distinct (map label props)"
    and "\<forall>p \<in> set props.
           case map_of d0 (label p) of
             None \<Rightarrow> m = 0
           | Some col \<Rightarrow>
               length col = m
               \<and> ((\<forall>q \<in> set props. 0 \<le> column_count q) \<longrightarrow> 1 < column_count p \<longrightarrow>
                    (\<forall>e \<in> set col. \<exists>vs. e = Multi vs \<and> int (length vs) = column_count p))"
  shows "\<forall>p \<in> set props.
           case map_of d1 (label p) of
             None \<Rightarrow> m + n = 0
           | Some col \<Rightarrow>
               length col = m + n
               \<and> ((\<forall>q \<in> set props. 0 \<le> column_count q) \<longrightarrow> 1 < column_count p \<longrightarrow>
                    (\<forall>e \<in> set col. \<exists>vs. e = Multi vs \<and> int (length vs) = column_count p))"
  using assms(1,4)
proof (induction n arbitrary: idx d0 ls m)
  case 0
  then show ?case
    by (auto split: option.splits)
next
  case (Suc n)
  let ?nonneg = "\<forall>q \<in> set props. 0 \<le> column_count q"
  from Suc.prems(1) obtain line ls' where ls: "ls = line # ls'"
    by (cases ls) auto
  from Suc.prems(1) have count: "int (length (split_ws line)) = expected"
    by (auto simp: ls Let_def split: if_splits)
  with Suc.prems(1) obtain d' where
    row: "decode_row pyfloat props (split_ws line) 0 d0 = Inr d'"
    and rows: "read_rows pyfloat props expected n (Suc idx) d' ls' = (Inr d1, rest)"
    by (auto simp: ls Let_def split: sum.splits)
  have cols: "\<forall>p \<in> set props. \<exists>e.
      map_of d' (label p) =
        Some ((case map_of d0 (label p) of None \<Rightarrow> [] | Some col \<Rightarrow> col) @ [e])
      \<and> (?nonneg \<longrightarrow> 1 < column_count p \<longrightarrow>
            (\<exists>vs. e = Multi vs \<and> int (length vs) = column_count p))"
    using decode_row_entries [OF row assms(3)] count assms(2) by simp
  have "\<forall>p \<in> set props.
           case map_of d' (label p) of
             None \<Rightarrow> Suc m = 0
           | Some col \<Rightarrow>
               length col = Suc m
               \<and> (?nonneg \<longrightarrow> 1 < column_count p \<longrightarrow>
                    (\<forall>e \<in> set col. \<exists>vs. e = Multi vs \<and> int (length vs) = column_count p))"
  proof
    fix p
    assume p: "p \<in> set props"
    with cols obtain e where
      e: "map_of d' (label p) =
            Some ((case map_of d0 (label p) of None \<Rightarrow> [] | Some col \<Rightarrow> col) @ [e])"
      and shape: "?nonneg \<longrightarrow> 1 < column_count p \<longrightarrow>
        (\<exists>vs. e = Multi vs \<and> int (length vs) = column_count p)"
      by blast
    from Suc.prems(2) p have
      "case map_of d0 (label p) of
             None \<Rightarrow> m = 0
           | Some col \<Rightarrow>
               length col = m
               \<and> (?nonneg \<longrightarrow> 1 < column_count p \<longrightarrow>
                    (\<forall>e \<in> set col. \<exists>vs. e = Multi vs \<and> int (length vs) = column_count p))"
      by blast
    with e shape show
      "case map_of d' (label p) of
             None \<Rightarrow> Suc m = 0
           | Some col \<Rightarrow>
               length col = Suc m
               \<and> (?nonneg \<longrightarrow> 1 < column_count p \<longrightarrow>
                    (\<forall>e \<in> set col. \<exists>vs. e = Multi vs \<and> int (length vs) = column_count p))"
      by (auto split: option.splits)
  qed
  with rows have "\<forall>p \<in> set props.
           case map_of d1 (label p) of
             None \<Rightarrow> Suc m + n = 0
           | Some col \<Rightarrow>
               length col = Suc m + n
               \<and> (?nonneg \<longrightarrow> 1 < column_count p \<longrightarrow>
                    (\<forall>e \<in> set col. \<exists>vs. e = Multi vs \<and> int (length vs) = column_count p))"
    by (rule Suc.IH)
  then show ?case
    by (auto split: option.splits)
qed

text \<open>
  C5, as the code has it. The claim: in every frame that is returned, each label of the
  schema is bound in \<open>data\<close> to exactly \<open>num_atoms\<close> entries, and an entry of a property
  with \<open>k > 1\<close> columns holds exactly \<open>k\<close> scalars. For a frame whose schema has pairwise
  distinct labels, the first half holds when the frame has at least one atom, whatever
  the column counts are, and the second half holds when no column count of the schema is
  negative. Without an atom \<open>data\<close> binds no label, a label declared twice collects the
  entries of both its properties, and a negative count moves the slices of the properties
  around it.
\<close>

theorem C5_columns_of_a_frame:
  fixes pyfloat :: "string \<Rightarrow> 'r option"
  assumes "read_frame pyfloat input = (Inr frame, rest)"
    and "distinct (map label (FrameProps frame))"
    and "p \<in> set (FrameProps frame)"
  shows "(0 < num_atoms frame \<longrightarrow>
            (\<exists>col. map_of (data frame) (label p) = Some col
               \<and> int (length col) = num_atoms frame))
       \<and> ((\<forall>q \<in> set (FrameProps frame). 0 \<le> column_count q) \<and> 1 < column_count p \<longrightarrow>
            (\<forall>col. map_of (data frame) (label p) = Some col \<longrightarrow>
               (\<forall>e \<in> set col. \<exists>vs. e = Multi vs \<and> int (length vs) = column_count p)))"
proof -
  from assms(1) obtain n file2 and sc :: "'r structured_comment" where
    rows: "read_rows pyfloat (Properties sc) (sum_list (map column_count (Properties sc)))
             (nat n) 0 [] file2 = (Inr (data frame), rest)"
    and n: "num_atoms frame = n" and props: "FrameProps frame = Properties sc"
    by (auto simp: read_frame_def split: list.splits sum.splits prod.splits)
  have "\<forall>p \<in> set (Properties sc).
           case map_of (data frame) (label p) of
             None \<Rightarrow> 0 + nat n = 0
           | Some col \<Rightarrow>
               length col = 0 + nat n
               \<and> ((\<forall>q \<in> set (Properties sc). 0 \<le> column_count q) \<longrightarrow> 1 < column_count p \<longrightarrow>
                    (\<forall>e \<in> set col. \<exists>vs. e = Multi vs \<and> int (length vs) = column_count p))"
    using rows refl assms(2) unfolding props by (rule read_rows_entries) simp
  with assms(3) have
    "case map_of (data frame) (label p) of
             None \<Rightarrow> 0 + nat n = 0
           | Some col \<Rightarrow>
               length col = 0 + nat n
               \<and> ((\<forall>q \<in> set (Properties sc). 0 \<le> column_count q) \<longrightarrow> 1 < column_count p \<longrightarrow>
                    (\<forall>e \<in> set col. \<exists>vs. e = Multi vs \<and> int (length vs) = column_count p))"
    unfolding props by blast
  then show ?thesis
    unfolding props n by (auto split: option.splits)
qed

theorem C5_columns_of_a_frame_witness:
  "read_frame float_of_int_literal
     [''2\<newline>'', ''Lattice=\"1 0 0 0 1 0 0 0 1\" Properties=species:S:1:pos:R:3 Step=7\<newline>'',
      ''O 0 0 0\<newline>'', ''H 0 0 1\<newline>''] =
     (Inr \<lparr>num_atoms = 2, LatticeVectors = [(1, 0, 0), (0, 1, 0), (0, 0, 1)],
           FrameProps = [\<lparr>label = ''species'', datatype_of = STRING, column_count = 1\<rparr>,
                         \<lparr>label = ''pos'', datatype_of = REAL, column_count = 3\<rparr>],
           ExtraKV = [(''Step'', PyInt 7)],
           data = [(''species'', [Single (PyStr ''O''), Single (PyStr ''H'')]),
                   (''pos'', [Multi [PyFloat 0, PyFloat 0, PyFloat 0],
                              Multi [PyFloat 0, PyFloat 0, PyFloat 1]])]\<rparr>, [])
   \<and> distinct (map label [\<lparr>label = ''species'', datatype_of = STRING, column_count = 1\<rparr>,
                            \<lparr>label = ''pos'', datatype_of = REAL, column_count = 3\<rparr>])
   \<and> list_all (\<lambda>q. 0 \<le> column_count q)
         [\<lparr>label = ''species'', datatype_of = STRING, column_count = 1\<rparr>,
          \<lparr>label = ''pos'', datatype_of = REAL, column_count = 3\<rparr>]
   \<and> (\<exists>col. map_of [(''species'', [Single (PyStr ''O''), Single (PyStr ''H'')]),
                      (''pos'', [Multi [PyFloat 0, PyFloat 0, PyFloat 0],
                                 Multi [PyFloat 0, PyFloat 0, PyFloat (1 :: rat)]])] ''pos'' = Some col
          \<and> int (length col) = 2
          \<and> (\<forall>e \<in> set col. \<exists>vs. e = Multi vs \<and> int (length vs) = 3))
   \<and> read_frame float_of_int_literal
     [''2\<newline>'', ''Lattice=\"1 0 0 0 1 0 0 0 1\" Properties=a:R:3:b:R:-1\<newline>'',
      ''1 2\<newline>'', ''3 4\<newline>''] =
     (Inr \<lparr>num_atoms = 2, LatticeVectors = [(1, 0, 0), (0, 1, 0), (0, 0, 1)],
           FrameProps = [\<lparr>label = ''a'', datatype_of = REAL, column_count = 3\<rparr>,
                         \<lparr>label = ''b'', datatype_of = REAL, column_count = - 1\<rparr>],
           ExtraKV = [],
           data = [(''a'', [Multi [PyFloat 1, PyFloat 2], Multi [PyFloat 3, PyFloat 4]]),
                   (''b'', [Multi [], Multi []])]\<rparr>, [])
   \<and> distinct (map label [\<lparr>label = ''a'', datatype_of = REAL, column_count = 3\<rparr>,
                            \<lparr>label = ''b'', datatype_of = REAL, column_count = - 1\<rparr>])
   \<and> (\<exists>col. map_of [(''a'', [Multi [PyFloat 1, PyFloat 2], Multi [PyFloat 3, PyFloat (4 :: rat)]]),
                      (''b'', [Multi [], Multi []])] ''b'' = Some col
          \<and> int (length col) = 2)"
proof -
  let ?props = "[\<lparr>label = ''species'', datatype_of = STRING, column_count = 1\<rparr>,
                 \<lparr>label = ''pos'', datatype_of = REAL, column_count = 3\<rparr>]"
  let ?data = "[(''species'', [Single (PyStr ''O''), Single (PyStr ''H'')]),
                (''pos'', [Multi [PyFloat 0, PyFloat 0, PyFloat 0],
                           Multi [PyFloat 0, PyFloat 0, PyFloat (1 :: rat)]])]"
  let ?frame = "\<lparr>num_atoms = 2, LatticeVectors = [(1, 0, 0), (0, 1, 0), (0, 0, 1)],
                 FrameProps = ?props, ExtraKV = [(''Step'', PyInt 7)], data = ?data\<rparr>"
  let ?props2 = "[\<lparr>label = ''a'', datatype_of = REAL, column_count = 3\<rparr>,
                  \<lparr>label = ''b'', datatype_of = REAL, column_count = - 1\<rparr>]"
  let ?data2 = "[(''a'', [Multi [PyFloat 1, PyFloat 2], Multi [PyFloat 3, PyFloat (4 :: rat)]]),
                 (''b'', [Multi [], Multi []])]"
  let ?frame2 = "\<lparr>num_atoms = 2, LatticeVectors = [(1, 0, 0), (0, 1, 0), (0, 0, 1)],
                  FrameProps = ?props2, ExtraKV = [], data = ?data2\<rparr>"
  have h1: "read_frame float_of_int_literal
     [''2\<newline>'', ''Lattice=\"1 0 0 0 1 0 0 0 1\" Properties=species:S:1:pos:R:3 Step=7\<newline>'',
      ''O 0 0 0\<newline>'', ''H 0 0 1\<newline>''] = (Inr ?frame, [])"
    by code_simp
  have h2: "distinct (map label (FrameProps ?frame))"
    by simp
  have h3: "\<lparr>label = ''pos'', datatype_of = REAL, column_count = 3\<rparr> \<in> set (FrameProps ?frame)"
    by simp
  from C5_columns_of_a_frame [OF h1 h2 h3]
  have c: "\<exists>col. map_of ?data ''pos'' = Some col \<and> int (length col) = 2
          \<and> (\<forall>e \<in> set col. \<exists>vs. e = Multi vs \<and> int (length vs) = 3)"
    by simp
  have h2': "distinct (map label ?props)"
    by simp
  have h4': "list_all (\<lambda>q. 0 \<le> column_count q) ?props"
    by simp
  have g1: "read_frame float_of_int_literal
     [''2\<newline>'', ''Lattice=\"1 0 0 0 1 0 0 0 1\" Properties=a:R:3:b:R:-1\<newline>'',
      ''1 2\<newline>'', ''3 4\<newline>''] = (Inr ?frame2, [])"
    by code_simp
  have g2: "distinct (map label (FrameProps ?frame2))"
    by simp
  have g3: "\<lparr>label = ''b'', datatype_of = REAL, column_count = - 1\<rparr> \<in> set (FrameProps ?frame2)"
    by simp
  from C5_columns_of_a_frame [OF g1 g2 g3]
  have c': "\<exists>col. map_of ?data2 ''b'' = Some col \<and> int (length col) = 2"
    by simp
  have g2': "distinct (map label ?props2)"
    by simp
  show ?thesis
    by (intro conjI) (rule h1, rule h2', rule h4', rule c, rule g1, rule g2', rule c')
qed

text \<open>
  C5 fails as stated: with the label \<open>a\<close> declared twice, with 2 and with 3 columns, a
  frame of one atom holds two entries under \<open>a\<close>, one of them of 3 scalars; a frame of no
  atom binds no label at all; and with the counts 3 and \<open>-1\<close> a row of two tokens is
  accepted and the entry of the property of 3 columns holds two scalars.
\<close>

theorem C5_columns_out_of_shape:
  "read_frame float_of_int_literal
     [''1\<newline>'', ''Lattice=\"1 0 0 0 1 0 0 0 1\" Properties=a:R:2:a:R:3\<newline>'',
      ''1 2 3 4 5\<newline>''] =
     (Inr \<lparr>num_atoms = 1, LatticeVectors = [(1, 0, 0), (0, 1, 0), (0, 0, 1)],
           FrameProps = [\<lparr>label = ''a'', datatype_of = REAL, column_count = 2\<rparr>,
                         \<lparr>label = ''a'', datatype_of = REAL, column_count = 3\<rparr>],
           ExtraKV = [],
           data = [(''a'', [Multi [PyFloat 1, PyFloat 2],
                            Multi [PyFloat 3, PyFloat 4, PyFloat 5]])]\<rparr>, [])
   \<and> read_frame float_of_int_literal
     [''0\<newline>'', ''Lattice=\"1 0 0 0 1 0 0 0 1\" Properties=a:R:1\<newline>''] =
     (Inr \<lparr>num_atoms = 0, LatticeVectors = [(1, 0, 0), (0, 1, 0), (0, 0, 1)],
           FrameProps = [\<lparr>label = ''a'', datatype_of = REAL, column_count = 1\<rparr>],
           ExtraKV = [], data = []\<rparr>, [])
   \<and> read_frame float_of_int_literal
     [''1\<newline>'', ''Lattice=\"1 0 0 0 1 0 0 0 1\" Properties=a:R:3:b:R:-1\<newline>'', ''1 2\<newline>''] =
     (Inr \<lparr>num_atoms = 1, LatticeVectors = [(1, 0, 0), (0, 1, 0), (0, 0, 1)],
           FrameProps = [\<lparr>label = ''a'', datatype_of = REAL, column_count = 3\<rparr>,
                         \<lparr>label = ''b'', datatype_of = REAL, column_count = - 1\<rparr>],
           ExtraKV = [],
           data = [(''a'', [Multi [PyFloat 1, PyFloat 2]]), (''b'', [Multi []])]\<rparr>, [])"
  by code_simp

end
